theory Spec2Isabelle
  imports Complex_Main "HOL-Library.Word"
begin

section \<open>JavaScript values used by the pipeline\<close>

text \<open>
  A JavaScript string is a sequence of 16-bit UTF-16 code units; \<open>length\<close> counts code
  units. Numbers that carry seconds or milliseconds are modelled as exact rationals
  (the source computes with IEEE doubles; every concrete value evaluated below is a
  dyadic rational, which a double represents exactly). \<open>NaN\<close> is the one non-rational
  number the duration probe can produce, through \<open>parseFloat\<close>.
\<close>

type_synonym jschar = "16 word"
type_synonym jsstring = "jschar list"

datatype jsnum = Num rat | NaN

text \<open>The value carried by a thrown exception: the \<open>message\<close> of the \<open>Error\<close>.\<close>

datatype error = Error jsstring

section \<open>String operations of the JavaScript runtime\<close>

text \<open>
  \<open>String.prototype.trim\<close> removes the ECMAScript white space and line terminator
  code units from both ends.
\<close>

definition isWhiteSpace :: "jschar \<Rightarrow> bool" where
  "isWhiteSpace c \<longleftrightarrow>
     c = 0x09 \<or> c = 0x0A \<or> c = 0x0B \<or> c = 0x0C \<or> c = 0x0D \<or> c = 0x20 \<or> c = 0xA0 \<or>
     c = 0x1680 \<or> (0x2000 \<le> c \<and> c \<le> 0x200A) \<or> c = 0x2028 \<or> c = 0x2029 \<or>
     c = 0x202F \<or> c = 0x205F \<or> c = 0x3000 \<or> c = 0xFEFF"

definition trim :: "jsstring \<Rightarrow> jsstring" where
  "trim s = rev (dropWhile isWhiteSpace (rev (dropWhile isWhiteSpace s)))"

text \<open>
  \<open>str.split(/([...])/)\<close> with a one-character class in a capturing group: the string
  is cut at every separator and each separator is kept as an element of its own, so
  the result alternates text, separator, text, ..., and always ends with a (possibly
  empty) text. \<open>cur\<close> is the text collected since the last separator.
\<close>

fun split_capture :: "(jschar \<Rightarrow> bool) \<Rightarrow> jsstring \<Rightarrow> jsstring \<Rightarrow> jsstring list" where
  "split_capture sep cur [] = [cur]"
| "split_capture sep cur (c # cs) =
     (if sep c then cur # [c] # split_capture sep [] cs
      else split_capture sep (cur @ [c]) cs)"

text \<open>
  \<open>Array.prototype.join\<close>, and the decimal digits of a non-negative integer as
  template literals print it.
\<close>

fun join :: "jsstring \<Rightarrow> jsstring list \<Rightarrow> jsstring" where
  "join sep [] = []"
| "join sep [x] = x"
| "join sep (x # y # ys) = x @ sep @ join sep (y # ys)"

fun decimal :: "nat \<Rightarrow> jsstring" where
  "decimal n = (if n < 10 then [of_nat (48 + n)]
                else decimal (n div 10) @ [of_nat (48 + n mod 10)])"

declare decimal.simps [simp del]

text \<open>
  \<open>String.prototype.includes\<close>, \<open>indexOf\<close> and \<open>lastIndexOf\<close> of one character
  (\<open>-1\<close> when absent), and \<open>substring\<close> with indices inside the string.
\<close>

fun js_includes :: "jsstring \<Rightarrow> jsstring \<Rightarrow> bool" where
  "js_includes [] needle = (needle = [])"
| "js_includes (c # cs) needle = (take (length needle) (c # cs) = needle \<or> js_includes cs needle)"

definition indexOf :: "jsstring \<Rightarrow> jschar \<Rightarrow> int" where
  "indexOf s c = (if c \<in> set s then int (length (takeWhile (\<lambda>x. x \<noteq> c) s)) else - 1)"

definition lastIndexOf :: "jsstring \<Rightarrow> jschar \<Rightarrow> int" where
  "lastIndexOf s c =
     (if c \<in> set s then int (length s) - 1 - int (length (takeWhile (\<lambda>x. x \<noteq> c) (rev s)))
      else - 1)"

definition substring :: "jsstring \<Rightarrow> nat \<Rightarrow> nat \<Rightarrow> jsstring" where
  "substring s from until = take (until - from) (drop from s)"



text \<open>
  \<open>Buffer.from(str, 'utf-8').length\<close>: one to three bytes per code unit, four for a
  surrogate pair, three (the replacement character) for a lone surrogate.
\<close>

definition unitBytes :: "jschar \<Rightarrow> nat" where
  "unitBytes c = (if c < 0x80 then 1 else if c < 0x800 then 2 else 3)"

definition isHighSurrogate :: "jschar \<Rightarrow> bool" where
  "isHighSurrogate c \<longleftrightarrow> 0xD800 \<le> c \<and> c \<le> 0xDBFF"

definition isLowSurrogate :: "jschar \<Rightarrow> bool" where
  "isLowSurrogate c \<longleftrightarrow> 0xDC00 \<le> c \<and> c \<le> 0xDFFF"

fun utf8Length :: "jsstring \<Rightarrow> nat" where
  "utf8Length [] = 0"
| "utf8Length [c] = unitBytes c"
| "utf8Length (c # d # cs) =
     (if isHighSurrogate c \<and> isLowSurrogate d then 4 + utf8Length cs
      else unitBytes c + utf8Length (d # cs))"

section \<open>Duration probing\<close>

text \<open>
  Both probes run \<open>ffprobe\<close> through \<open>execSync\<close>, which either returns the captured
  standard output or throws. The outcome of the subprocess is the parameter
  \<open>execSync\<close> (a function of the probed path); the runtime's \<open>parseFloat\<close> is a
  parameter too.

  \<open>asr_getAudioDuration\<close> is \<open>getAudioDuration\<close> of \<open>services/asr.js\<close>, the one the
  marker orchestrator imports: its \<open>catch\<close> logs and rethrows.
  \<open>videoSynth_getAudioDuration\<close> is the private \<open>getAudioDuration\<close> of the video
  synthesis service: its \<open>catch\<close> returns 5.
\<close>

definition asr_getAudioDuration ::
  "('p \<Rightarrow> error + jsstring) \<Rightarrow> (jsstring \<Rightarrow> jsnum) \<Rightarrow> 'p \<Rightarrow> error + jsnum" where
  "asr_getAudioDuration execSync parseFloat filePath =
     (case execSync filePath of
        Inr output \<Rightarrow> Inr (parseFloat (trim output))
      | Inl err \<Rightarrow> Inl err)"

definition videoSynth_getAudioDuration ::
  "('p \<Rightarrow> error + jsstring) \<Rightarrow> (jsstring \<Rightarrow> jsnum) \<Rightarrow> 'p \<Rightarrow> error + jsnum" where
  "videoSynth_getAudioDuration execSync parseFloat audioPath =
     (case execSync audioPath of
        Inr output \<Rightarrow> Inr (parseFloat (trim output))
      | Inl err \<Rightarrow> Inr (Num 5))"

text \<open>Two concrete subprocess outcomes and a concrete \<open>parseFloat\<close>, for evaluation.\<close>

definition ffprobe_fails :: "nat \<Rightarrow> error + jsstring" where
  "ffprobe_fails p = Inl (Error [0x66, 0x61, 0x69, 0x6C])"

definition ffprobe_prints_12 :: "nat \<Rightarrow> error + jsstring" where
  "ffprobe_prints_12 p = Inr [0x31, 0x32, 0x0A]"

definition parseFloat_12 :: "jsstring \<Rightarrow> jsnum" where
  "parseFloat_12 s = (if s = [0x31, 0x32] then Num 12 else NaN)"

section \<open>Subtitle timer\<close>

text \<open>
  A cue \<open>{text, start, duration}\<close> as the timer produces it.
\<close>

record cue =
  cueText :: jsstring
  start :: rat
  duration :: rat

text \<open>The character class \<open>[\<dots>\n]\<close> of sentence ends: the ideographic full stop
  U+3002, the fullwidth exclamation mark U+FF01, question mark U+FF1F and semicolon
  U+FF1B, and the line feed.\<close>

definition isSentenceEnd :: "jschar \<Rightarrow> bool" where
  "isSentenceEnd c \<longleftrightarrow> c = 0x3002 \<or> c = 0xFF01 \<or> c = 0xFF1F \<or> c = 0xFF1B \<or> c = 0x0A"

text \<open>The character class of commas: the fullwidth comma U+FF0C and the ASCII comma.\<close>

definition isComma :: "jschar \<Rightarrow> bool" where
  "isComma c \<longleftrightarrow> c = 0xFF0C \<or> c = 0x2C"

text \<open>
  The first loop of \<open>generateSubtitlesFromScript\<close> together with the push after it:
  the list of the segments pushed, in order, given the parts still to visit and
  \<open>currentSegment\<close>. A non-empty string is truthy.
\<close>

fun mergeSentences :: "jsstring list \<Rightarrow> jsstring \<Rightarrow> jsstring list" where
  "mergeSentences [] currentSegment =
     (if trim currentSegment \<noteq> [] then [trim currentSegment] else [])"
| "mergeSentences (part # rest) currentSegment =
     (if list_ex isSentenceEnd part then
        (if currentSegment \<noteq> [] then
           (trim currentSegment @ (if part = [0x0A] then [] else part)) # mergeSentences rest []
         else mergeSentences rest currentSegment)
      else mergeSentences rest (currentSegment @ part))"

definition sentenceSegments :: "jsstring \<Rightarrow> jsstring list" where
  "sentenceSegments script =
     mergeSentences (filter (\<lambda>s. length (trim s) > 0) (split_capture isSentenceEnd [] script)) []"

text \<open>The loop of \<open>splitByComma\<close> with the push after it; \<open>maxLength * 0.7\<close> is exact.\<close>

fun commaLoop :: "nat \<Rightarrow> jsstring list \<Rightarrow> jsstring \<Rightarrow> jsstring list" where
  "commaLoop maxLength [] current =
     (if trim current \<noteq> [] then [trim current] else [])"
| "commaLoop maxLength (part # rest) current =
     (if list_ex isComma part then
        (if (of_nat (length (current @ part)) :: rat) \<ge> of_nat maxLength * (7 / 10) then
           trim (current @ part) # commaLoop maxLength rest []
         else commaLoop maxLength rest (current @ part))
      else if length current + length part > maxLength then
        (if trim current \<noteq> [] then trim current # commaLoop maxLength rest part
         else commaLoop maxLength rest part)
      else commaLoop maxLength rest (current @ part))"

definition splitByComma :: "jsstring \<Rightarrow> nat \<Rightarrow> jsstring list" where
  "splitByComma txt maxLength =
     (let parts = filter (\<lambda>s. length (trim s) > 0) (split_capture isComma [] txt);
          result = commaLoop maxLength parts []
      in if length result > 0 then result else [take maxLength txt @ [0x2E, 0x2E, 0x2E]])"

text \<open>
  The body of \<open>segments.forEach\<close>. \<open>clampDuration\<close> is the share of a segment clamped
  to [1.5, 8]; \<open>segmentCues\<close> is what one segment pushes, given \<open>currentTime\<close> and the
  duration the segment finally gets; \<open>timeSegments\<close> is the loop, the last segment being
  the one with nothing after it.
\<close>

definition clampDuration :: "rat \<Rightarrow> nat \<Rightarrow> jsstring \<Rightarrow> rat" where
  "clampDuration totalDuration totalChars segment =
     max (3 / 2) (min (totalDuration * (of_nat (length segment) / of_nat totalChars)) 8)"

definition segmentCues :: "jsstring \<Rightarrow> rat \<Rightarrow> rat \<Rightarrow> cue list" where
  "segmentCues segment currentTime dur =
     (if length segment > 25 then
        (let subParts = splitByComma segment 25;
             subDuration = dur / of_nat (length subParts)
         in map (\<lambda>subIndex. \<lparr>cueText = subParts ! subIndex,
                              start = currentTime + of_nat subIndex * subDuration,
                              duration = max 1 subDuration\<rparr>) [0..<length subParts])
      else [\<lparr>cueText = segment, start = currentTime, duration = dur\<rparr>])"

fun timeSegments :: "rat \<Rightarrow> nat \<Rightarrow> rat \<Rightarrow> jsstring list \<Rightarrow> cue list" where
  "timeSegments totalDuration totalChars currentTime [] = []"
| "timeSegments totalDuration totalChars currentTime (segment # rest) =
     (let dur = (if rest = [] then max (3 / 2) (totalDuration - currentTime)
                 else clampDuration totalDuration totalChars segment)
      in segmentCues segment currentTime dur
         @ timeSegments totalDuration totalChars (currentTime + dur) rest)"

definition generateSubtitlesFromScript :: "jsstring \<Rightarrow> rat \<Rightarrow> cue list" where
  "generateSubtitlesFromScript script totalDuration =
     (if script = [] \<or> totalDuration \<le> 0 then []
      else let segments = sentenceSegments script in
        if length segments = 0 then []
        else let totalChars = sum_list (map length segments) in
          if totalChars = 0 then []
          else timeSegments totalDuration totalChars 0 segments)"

text \<open>
  The same loop, keeping apart what each segment pushes: \<open>timeSegments\<close> is the
  concatenation of these groups. Used to state which cues come from which segment.
\<close>

fun cueGroups :: "rat \<Rightarrow> nat \<Rightarrow> rat \<Rightarrow> jsstring list \<Rightarrow> cue list list" where
  "cueGroups totalDuration totalChars currentTime [] = []"
| "cueGroups totalDuration totalChars currentTime (segment # rest) =
     (let dur = (if rest = [] then max (3 / 2) (totalDuration - currentTime)
                 else clampDuration totalDuration totalChars segment)
      in segmentCues segment currentTime dur
         # cueGroups totalDuration totalChars (currentTime + dur) rest)"

section \<open>Slides, video assembly and the slide view-model\<close>

text \<open>
  An entry of a slide's author-provided \<open>subtitles\<close> list, as parsed from the
  language model's JSON: \<open>{text, start, duration}\<close>, where \<open>start\<close> and \<open>duration\<close>
  may be missing (\<open>None\<close>). A slide of the script after normalisation; \<open>subtitles\<close>
  is \<open>undefined\<close> (\<open>None\<close>) or a list.
\<close>

record authorCue =
  subText :: jsstring
  subStart :: "rat option"
  subDuration :: "rat option"

record slide =
  slideTitle :: jsstring
  slideScript :: jsstring
  slideImagePrompt :: jsstring
  slideSubtitle :: jsstring
  slideSubtitles :: "authorCue list option"

text \<open>
  \<open>sub.duration || 2\<close>: a missing or zero duration counts as 2.
\<close>

definition durationOr2 :: "authorCue \<Rightarrow> rat" where
  "durationOr2 sub = (case subDuration sub of None \<Rightarrow> 2 | Some d \<Rightarrow> if d = 0 then 2 else d)"

text \<open>
  The \<open>forEach\<close> over the author-provided cues in \<open>synthesizeVideo\<close>, with
  \<open>subCurrentTime\<close> as accumulator, and the scale factor computed before it
  (\<open>reduce\<close> from 0, then the guard \<open>totalSubDuration > 0\<close>).
\<close>

fun scaleSubtitles :: "rat \<Rightarrow> rat \<Rightarrow> rat \<Rightarrow> authorCue list \<Rightarrow> cue list" where
  "scaleSubtitles timeScale currentTime subCurrentTime [] = []"
| "scaleSubtitles timeScale currentTime subCurrentTime (sub # rest) =
     (let scaledDuration = durationOr2 sub * timeScale
      in \<lparr>cueText = subText sub, start = currentTime + subCurrentTime,
           duration = scaledDuration\<rparr>
         # scaleSubtitles timeScale currentTime (subCurrentTime + scaledDuration) rest)"

definition timeScaleOf :: "authorCue list \<Rightarrow> rat \<Rightarrow> rat" where
  "timeScaleOf subs resultDuration =
     (let totalSubDuration = foldl (\<lambda>sum sub. sum + durationOr2 sub) 0 subs
      in if totalSubDuration > 0 then resultDuration / totalSubDuration else 1)"

text \<open>
  The cues one slide contributes in \<open>synthesizeVideo\<close>, given the duration of its
  clip (\<open>result.duration\<close>) and the running \<open>currentTime\<close>: the script first, else a
  non-empty author-provided list, else the single caption, else nothing.
\<close>

definition slideSubtitleCues :: "slide \<Rightarrow> rat \<Rightarrow> rat \<Rightarrow> cue list" where
  "slideSubtitleCues slide resultDuration currentTime =
     (if slideScript slide \<noteq> [] then
        map (\<lambda>sub. \<lparr>cueText = cueText sub, start = currentTime + start sub,
                      duration = duration sub\<rparr>)
            (generateSubtitlesFromScript (slideScript slide) resultDuration)
      else if slideSubtitles slide \<noteq> None \<and> length (the (slideSubtitles slide)) > 0 then
        scaleSubtitles (timeScaleOf (the (slideSubtitles slide)) resultDuration) currentTime 0
          (the (slideSubtitles slide))
      else if slideSubtitle slide \<noteq> [] then
        [\<lparr>cueText = slideSubtitle slide, start = currentTime, duration = resultDuration\<rparr>]
      else [])"

text \<open>
  The loop over the slides: \<open>createSlideVideo\<close> (a parameter, by slide index) either
  rejects, which aborts the assembly, or yields the clip's duration.
\<close>

fun synthesizeVideo_loop ::
  "(nat \<Rightarrow> error + rat) \<Rightarrow> nat \<Rightarrow> slide list \<Rightarrow> cue list \<Rightarrow> rat \<Rightarrow> error + (cue list \<times> rat)" where
  "synthesizeVideo_loop createSlideVideo i [] subtitles currentTime = Inr (subtitles, currentTime)"
| "synthesizeVideo_loop createSlideVideo i (slide # rest) subtitles currentTime =
     (case createSlideVideo i of
        Inl err \<Rightarrow> Inl err
      | Inr resultDuration \<Rightarrow>
          synthesizeVideo_loop createSlideVideo (i + 1) rest
            (subtitles @ slideSubtitleCues slide resultDuration currentTime)
            (currentTime + resultDuration))"

text \<open>
  The slide view-model built at the end of \<open>processTimeMarker\<close> (paths and URLs
  left out). Its \<open>subtitles\<close> field holds \<open>undefined\<close>, the author-provided list, or the
  cues derived by the subtitle timer; \<open>audioDuration\<close> is \<open>slideAudios[i]?.duration\<close> in
  milliseconds, truthy when present and non-zero.
\<close>

datatype subtitlesValue = Undefined | AuthorSubtitles "authorCue list" | TimedSubtitles "cue list"

record slideView =
  viewIndex :: nat
  viewTitle :: jsstring
  viewScript :: jsstring
  viewSubtitle :: jsstring
  viewSubtitles :: subtitlesValue
  viewAudioDuration :: "rat option"

definition slideViewModel :: "slide \<Rightarrow> nat \<Rightarrow> rat option \<Rightarrow> slideView" where
  "slideViewModel slide i audioDuration =
     \<lparr>viewIndex = i + 1,
      viewTitle = slideTitle slide,
      viewScript = slideScript slide,
      viewSubtitle = slideSubtitle slide,
      viewSubtitles =
        (if (slideSubtitles slide = None \<or> length (the (slideSubtitles slide)) = 0)
            \<and> slideScript slide \<noteq> []
            \<and> audioDuration \<noteq> None \<and> audioDuration \<noteq> Some 0
         then TimedSubtitles
                (generateSubtitlesFromScript (slideScript slide) (the audioDuration / 1000))
         else (case slideSubtitles slide of
                 None \<Rightarrow> Undefined
               | Some subs \<Rightarrow> AuthorSubtitles subs)),
      viewAudioDuration = audioDuration\<rparr>"

text \<open>
  Concrete slides for evaluation.
\<close>

definition slide_zeroDurations :: slide where
  "slide_zeroDurations =
     \<lparr>slideTitle = [0x54], slideScript = [], slideImagePrompt = [0x50], slideSubtitle = [0x53],
      slideSubtitles = Some [\<lparr>subText = [0x61], subStart = Some 0, subDuration = Some 0\<rparr>,
                             \<lparr>subText = [0x62], subStart = None, subDuration = None\<rparr>]\<rparr>"

definition slide_negativeDuration :: slide where
  "slide_negativeDuration =
     \<lparr>slideTitle = [0x54], slideScript = [], slideImagePrompt = [0x50], slideSubtitle = [0x53],
      slideSubtitles = Some [\<lparr>subText = [0x61], subStart = Some 0, subDuration = Some (- 1)\<rparr>]\<rparr>"

definition slide_authorCues :: slide where
  "slide_authorCues =
     \<lparr>slideTitle = [0x54], slideScript = [], slideImagePrompt = [0x50], slideSubtitle = [0x53],
      slideSubtitles = Some [\<lparr>subText = [0x61], subStart = Some 0, subDuration = Some 1\<rparr>,
                             \<lparr>subText = [0x62], subStart = Some 1, subDuration = Some 3\<rparr>]\<rparr>"

definition slide_scriptAndCues :: slide where
  "slide_scriptAndCues =
     \<lparr>slideTitle = [0x54], slideScript = [0x61, 0x3002], slideImagePrompt = [0x50],
      slideSubtitle = [0x53],
      slideSubtitles = Some [\<lparr>subText = [0x78], subStart = Some 0, subDuration = Some 1\<rparr>]\<rparr>"

section \<open>Marker orchestrator: the batch\<close>

text \<open>
  \<open>Math.round\<close> on a rational: the nearest integer, halves rounded up.
\<close>

definition jsRound :: "rat \<Rightarrow> int" where
  "jsRound x = \<lfloor>x + 1 / 2\<rfloor>"

text \<open>
  A call of a function the caller supplies: it runs on the caller's state \<open>'s\<close>, leaves a
  new state and may throw. \<open>callback?.(\<dots>)\<close> does nothing when the callback is absent.
\<close>

type_synonym 's effect = "'s \<Rightarrow> error option \<times> 's"

definition callProgress :: "(int \<Rightarrow> jsstring \<Rightarrow> 's effect) option \<Rightarrow> int \<Rightarrow> jsstring \<Rightarrow> 's effect" where
  "callProgress onProgress progress message s =
     (case onProgress of None \<Rightarrow> (None, s) | Some callback \<Rightarrow> callback progress message s)"

definition callTaskUpdate :: "(nat \<Rightarrow> 'u \<Rightarrow> 's effect) option \<Rightarrow> nat \<Rightarrow> 'u \<Rightarrow> 's effect" where
  "callTaskUpdate onTaskUpdate i data s =
     (case onTaskUpdate of None \<Rightarrow> (None, s) | Some callback \<Rightarrow> callback i data s)"

text \<open>
  An entry of the array \<open>processMultipleMarkers\<close> returns: \<open>{markerTime, ...result}\<close>
  with the result \<open>processTimeMarker\<close> resolved with (which carries \<open>success: true\<close>),
  or the failure placeholder \<open>{markerTime, success: false, error: error.message}\<close>.
  The data passed to \<open>onTaskUpdate\<close>: the \<open>start\<close>, \<open>completed\<close> and \<open>failed\<close> steps of the
  batch, and whatever \<open>processTimeMarker\<close> reports through its own update callback.
\<close>

datatype 'r markerEntry =
    Succeeded rat 'r
  | FailedMarker rat jsstring

datatype ('r, 'd) taskUpdate =
    TaskStart rat
  | TaskData 'd
  | TaskCompleted "'r markerEntry"
  | TaskFailed "'r markerEntry"

text \<open>
  The messages \<open>`\<dots> ${i + 1}/${total}...`\<close> and the final one, in UTF-16 code units.
\<close>

definition markerMessage :: "nat \<Rightarrow> nat \<Rightarrow> jsstring" where
  "markerMessage i totalCount =
     [0x5904, 0x7406, 0x6807, 0x8BB0, 0x70B9, 0x20] @ decimal (i + 1) @ [0x2F]
       @ decimal totalCount @ [0x2E, 0x2E, 0x2E]"

definition allMarkersDone :: jsstring where
  "allMarkersDone = [0x6240, 0x6709, 0x6807, 0x8BB0, 0x70B9, 0x5904, 0x7406, 0x5B8C, 0x6210]"

text \<open>
  The two arrow functions handed to \<open>processTimeMarker\<close>:
  \<open>(prog, msg) => onProgress?.(Math.round(baseProgress + prog / total), msg)\<close> and
  \<open>(data) => onTaskUpdate?.(i, data)\<close>.
\<close>

definition markerProgress ::
  "(int \<Rightarrow> jsstring \<Rightarrow> 's effect) option \<Rightarrow> int \<Rightarrow> nat \<Rightarrow> rat \<Rightarrow> jsstring \<Rightarrow> 's effect" where
  "markerProgress onProgress baseProgress totalCount prog msg =
     callProgress onProgress (jsRound (of_int baseProgress + prog / of_nat totalCount)) msg"

definition markerUpdate ::
  "(nat \<Rightarrow> ('r, 'd) taskUpdate \<Rightarrow> 's effect) option \<Rightarrow> nat \<Rightarrow> 'd \<Rightarrow> 's effect" where
  "markerUpdate onTaskUpdate i data = callTaskUpdate onTaskUpdate i (TaskData data)"

text \<open>
  One round of the \<open>for\<close> loop, for the marker at position \<open>i\<close>. \<open>processTimeMarker\<close> is a
  parameter: given the path, the marker time, the two callbacks and the state, the result
  it resolves with or the \<open>Error\<close> it throws, and the state it leaves. The \<open>start\<close> and
  progress calls are outside the \<open>try\<close>; the \<open>completed\<close> call is inside it, after the
  push, so a throw there reaches the \<open>catch\<close>, which pushes a second entry; a throw
  of the \<open>failed\<close> call leaves the function. The round yields the error that leaves the
  loop (if any), the array \<open>results\<close> and the state.
\<close>

definition markerRound ::
  "('p \<Rightarrow> rat \<Rightarrow> (rat \<Rightarrow> jsstring \<Rightarrow> 's effect) \<Rightarrow> ('d \<Rightarrow> 's effect) \<Rightarrow> 's \<Rightarrow> (error + 'r) \<times> 's)
     \<Rightarrow> (int \<Rightarrow> jsstring \<Rightarrow> 's effect) option
     \<Rightarrow> (nat \<Rightarrow> ('r, 'd) taskUpdate \<Rightarrow> 's effect) option
     \<Rightarrow> 'p \<Rightarrow> nat \<Rightarrow> nat \<Rightarrow> rat \<Rightarrow> 'r markerEntry list \<Rightarrow> 's
     \<Rightarrow> error option \<times> 'r markerEntry list \<times> 's" where
  "markerRound processTimeMarker onProgress onTaskUpdate audioFilePath totalCount i markerTime
       results s =
     (let baseProgress = jsRound (of_nat i / of_nat totalCount * 100) in
      case callTaskUpdate onTaskUpdate i (TaskStart markerTime) s of
        (Some err, s1) \<Rightarrow> (Some err, results, s1)
      | (None, s1) \<Rightarrow>
     (case callProgress onProgress baseProgress (markerMessage i totalCount) s1 of
        (Some err, s2) \<Rightarrow> (Some err, results, s2)
      | (None, s2) \<Rightarrow>
     (case (case processTimeMarker audioFilePath markerTime
                   (markerProgress onProgress baseProgress totalCount)
                   (markerUpdate onTaskUpdate i) s2 of
              (Inr result, s3) \<Rightarrow>
                (let fullResult = Succeeded markerTime result
                 in case callTaskUpdate onTaskUpdate i (TaskCompleted fullResult) s3 of
                      (thrown, s4) \<Rightarrow> (thrown, results @ [fullResult], s4))
            | (Inl err, s3) \<Rightarrow> (Some err, results, s3)) of
        (None, results1, s4) \<Rightarrow> (None, results1, s4)
      | (Some (Error message), results1, s4) \<Rightarrow>
          (let failedResult = FailedMarker markerTime message
           in case callTaskUpdate onTaskUpdate i (TaskFailed failedResult) s4 of
                (thrown, s5) \<Rightarrow> (thrown, results1 @ [failedResult], s5)))))"

text \<open>The \<open>for\<close> loop, from position \<open>i\<close> on.\<close>

fun markersLoop ::
  "('p \<Rightarrow> rat \<Rightarrow> (rat \<Rightarrow> jsstring \<Rightarrow> 's effect) \<Rightarrow> ('d \<Rightarrow> 's effect) \<Rightarrow> 's \<Rightarrow> (error + 'r) \<times> 's)
     \<Rightarrow> (int \<Rightarrow> jsstring \<Rightarrow> 's effect) option
     \<Rightarrow> (nat \<Rightarrow> ('r, 'd) taskUpdate \<Rightarrow> 's effect) option
     \<Rightarrow> 'p \<Rightarrow> nat \<Rightarrow> nat \<Rightarrow> rat list \<Rightarrow> 'r markerEntry list \<Rightarrow> 's
     \<Rightarrow> (error + 'r markerEntry list) \<times> 's" where
  "markersLoop processTimeMarker onProgress onTaskUpdate audioFilePath totalCount i [] results s =
     (Inr results, s)"
| "markersLoop processTimeMarker onProgress onTaskUpdate audioFilePath totalCount i
       (markerTime # rest) results s =
     (case markerRound processTimeMarker onProgress onTaskUpdate audioFilePath totalCount i
             markerTime results s of
        (Some err, results1, s1) \<Rightarrow> (Inl err, s1)
      | (None, results1, s1) \<Rightarrow>
          markersLoop processTimeMarker onProgress onTaskUpdate audioFilePath totalCount (i + 1)
            rest results1 s1)"

text \<open>
  The function is \<open>async\<close>: it resolves with the results (\<open>Inr\<close>) or rejects (\<open>Inl\<close>).
\<close>

definition processMultipleMarkers ::
  "('p \<Rightarrow> rat \<Rightarrow> (rat \<Rightarrow> jsstring \<Rightarrow> 's effect) \<Rightarrow> ('d \<Rightarrow> 's effect) \<Rightarrow> 's \<Rightarrow> (error + 'r) \<times> 's)
     \<Rightarrow> 'p \<Rightarrow> rat list
     \<Rightarrow> (int \<Rightarrow> jsstring \<Rightarrow> 's effect) option
     \<Rightarrow> (nat \<Rightarrow> ('r, 'd) taskUpdate \<Rightarrow> 's effect) option
     \<Rightarrow> 's \<Rightarrow> (error + 'r markerEntry list) \<times> 's" where
  "processMultipleMarkers processTimeMarker audioFilePath markerTimes onProgress onTaskUpdate s =
     (let totalCount = length markerTimes in
      case markersLoop processTimeMarker onProgress onTaskUpdate audioFilePath totalCount 0
             markerTimes [] s of
        (Inl err, s1) \<Rightarrow> (Inl err, s1)
      | (Inr results, s1) \<Rightarrow>
          (case callProgress onProgress (jsRound 100) allMarkersDone s1 of
             (Some err, s2) \<Rightarrow> (Inl err, s2)
           | (None, s2) \<Rightarrow> (Inr results, s2)))"

text \<open>
  Concrete runs for evaluation. Processing the marker at time 200 throws \<open>fail\<close>, the
  others resolve with 7. The state is the list of the progress values reported;
  \<open>recordProgress\<close> appends to it, \<open>throwingProgress\<close> throws \<open>boom\<close>, and
  \<open>throwOnCompleted\<close> throws \<open>boom\<close> at the \<open>completed\<close> step only.
\<close>

definition marker200_throws ::
  "nat \<Rightarrow> rat \<Rightarrow> (rat \<Rightarrow> jsstring \<Rightarrow> int list effect) \<Rightarrow> (unit \<Rightarrow> int list effect) \<Rightarrow> int list
     \<Rightarrow> (error + nat) \<times> int list" where
  "marker200_throws audioFilePath markerTime onProgress onUpdate s =
     (if markerTime = 200 then (Inl (Error [0x66, 0x61, 0x69, 0x6C]), s) else (Inr 7, s))"

definition recordProgress :: "int \<Rightarrow> jsstring \<Rightarrow> int list effect" where
  "recordProgress progress message s = (None, s @ [progress])"

definition throwingProgress :: "int \<Rightarrow> jsstring \<Rightarrow> int list effect" where
  "throwingProgress progress message s = (Some (Error [0x62, 0x6F, 0x6F, 0x6D]), s)"

definition throwOnCompleted :: "nat \<Rightarrow> (nat, unit) taskUpdate \<Rightarrow> int list effect" where
  "throwOnCompleted i data s =
     (case data of TaskCompleted entry \<Rightarrow> (Some (Error [0x62, 0x6F, 0x6F, 0x6D]), s)
      | _ \<Rightarrow> (None, s))"

section \<open>Transcriber\<close>

text \<open>
  The state of a promise once every pending request has had the chance to complete.
\<close>

datatype 'a promise = Resolved 'a | Rejected error | Pending

text \<open>
  A prepared segment task (the temporary file name left out) and the object
  \<open>processSegment\<close> returns for it.
\<close>

record segmentTask =
  index :: nat
  segmentStart :: rat
  segmentLength :: rat

record segmentResult =
  resultIndex :: nat
  resultText :: jsstring
  success :: bool

definition CONCURRENT_LIMIT :: nat where
  "CONCURRENT_LIMIT = 3"

text \<open>
  The first loop of \<open>transcribeAudio\<close>: one task per started minute,
  \<open>Math.ceil(duration / 60)\<close> of them; none when the duration is not positive.
\<close>

definition segmentTasks :: "rat \<Rightarrow> rat \<Rightarrow> segmentTask list" where
  "segmentTasks startTime endTime =
     (let segmentDuration = 60;
          segmentCount = \<lceil>(endTime - startTime) / segmentDuration\<rceil>
      in map (\<lambda>i. \<lparr>index = i,
                     segmentStart = startTime + of_nat i * segmentDuration,
                     segmentLength = min segmentDuration
                                       (endTime - (startTime + of_nat i * segmentDuration))\<rparr>)
           [0..<nat segmentCount])"

text \<open>
  The placeholder \<open>[\<dots> ${index + 1} \<dots>]\<close> of a failed chunk, the progress message
  \<open>`\<dots> ${completedCount}/${segmentCount}...`\<close> and the final message, in UTF-16 code
  units; \<open>segmentCount\<close> is positive wherever the message is built.
\<close>

definition failedText :: "nat \<Rightarrow> jsstring" where
  "failedText i =
     [0x5B, 0x7247, 0x6BB5, 0x20] @ decimal (i + 1) @ [0x20, 0x8BC6, 0x522B, 0x5931, 0x8D25, 0x5D]"

definition segmentMessage :: "nat \<Rightarrow> int \<Rightarrow> jsstring" where
  "segmentMessage completedCount segmentCount =
     [0x6B63, 0x5728, 0x5904, 0x7406, 0x7247, 0x6BB5, 0x20] @ decimal completedCount @ [0x2F]
       @ decimal (nat segmentCount) @ [0x2E, 0x2E, 0x2E]"

definition transcriptionDone :: jsstring where
  "transcriptionDone = [0x8BED, 0x97F3, 0x8BC6, 0x522B, 0x5B8C, 0x6210]"

text \<open>
  The \<open>catch\<close> block of \<open>processSegment\<close>: it counts the chunk, reports progress and
  returns the placeholder; a throw of \<open>onProgress\<close> leaves the function. The state is
  \<open>completedCount\<close> with the state of the caller's callback.
\<close>

definition segmentCatch ::
  "(int \<Rightarrow> jsstring \<Rightarrow> 's effect) option \<Rightarrow> int \<Rightarrow> segmentTask \<Rightarrow> nat \<times> 's
     \<Rightarrow> (error + segmentResult) \<times> (nat \<times> 's)" where
  "segmentCatch onProgress segmentCount task w =
     (let completedCount = fst w + 1;
          progress = jsRound (of_nat completedCount / of_int segmentCount * 80)
      in case callProgress onProgress progress (segmentMessage completedCount segmentCount) (snd w) of
           (None, s1) \<Rightarrow>
             (Inr \<lparr>resultIndex = index task, resultText = failedText (index task), success = False\<rparr>,
              (completedCount, s1))
         | (Some err, s1) \<Rightarrow> (Inl err, (completedCount, s1)))"

text \<open>
  \<open>processSegment\<close> from the point where the outcome of its \<open>try\<close> up to the recognised
  text is known (\<open>outcome\<close>: the text, or what \<open>extractAudioSegment\<close>, \<open>fileToBase64\<close> or
  \<open>callASRAPI\<close> threw). On success the chunk is counted and progress reported inside the
  \<open>try\<close>, so a throw of \<open>onProgress\<close> reaches the \<open>catch\<close>. The \<open>finally\<close> block is the
  parameter \<open>cleanup\<close>: the error \<open>existsSync\<close>/\<open>unlinkSync\<close> throw for the task's file, if
  any, which replaces the outcome. The promise of \<open>processSegment\<close> fulfils with a
  result (\<open>Inr\<close>) or rejects (\<open>Inl\<close>).
\<close>

definition processSegment ::
  "(int \<Rightarrow> jsstring \<Rightarrow> 's effect) option \<Rightarrow> (segmentTask \<Rightarrow> error option) \<Rightarrow> int \<Rightarrow> segmentTask
     \<Rightarrow> error + jsstring \<Rightarrow> nat \<times> 's \<Rightarrow> (error + segmentResult) \<times> (nat \<times> 's)" where
  "processSegment onProgress cleanup segmentCount task outcome w =
     (case (case outcome of
              Inr recognised \<Rightarrow>
                (let completedCount = fst w + 1;
                     progress = jsRound (of_nat completedCount / of_int segmentCount * 80)
                 in case callProgress onProgress progress
                           (segmentMessage completedCount segmentCount) (snd w) of
                      (None, s1) \<Rightarrow>
                        (Inr \<lparr>resultIndex = index task, resultText = recognised, success = True\<rparr>,
                         (completedCount, s1))
                    | (Some err, s1) \<Rightarrow>
                        segmentCatch onProgress segmentCount task (completedCount, s1))
            | Inl err \<Rightarrow> segmentCatch onProgress segmentCount task w) of
        (settled, w1) \<Rightarrow>
          (case cleanup task of None \<Rightarrow> (settled, w1) | Some err \<Rightarrow> (Inl err, w1)))"

text \<open>
  \<open>batch.map(processSegment)\<close>: each call runs at once up to its \<open>await\<close>. \<open>extract\<close> is
  \<open>extractAudioSegment\<close> followed by \<open>fileToBase64\<close>: the audio data, or the error thrown,
  in which case the call settles on the spot; otherwise the request is sent and the call
  waits. A rejection ends the batch: \<open>Promise.all\<close> rejects with the first one.
\<close>

datatype 'a slot = Waiting 'a | Settled segmentResult

fun dispatchAll ::
  "(int \<Rightarrow> jsstring \<Rightarrow> 's effect) option \<Rightarrow> (segmentTask \<Rightarrow> error option) \<Rightarrow> int
     \<Rightarrow> (segmentTask \<Rightarrow> error + 'a) \<Rightarrow> segmentTask list \<Rightarrow> nat \<times> 's
     \<Rightarrow> error + ('a slot list \<times> (nat \<times> 's))" where
  "dispatchAll onProgress cleanup segmentCount extract [] w = Inr ([], w)"
| "dispatchAll onProgress cleanup segmentCount extract (task # rest) w =
     (case extract task of
        Inr audioBase64 \<Rightarrow>
          (case dispatchAll onProgress cleanup segmentCount extract rest w of
             Inr (slots, w') \<Rightarrow> Inr (Waiting audioBase64 # slots, w')
           | Inl err \<Rightarrow> Inl err)
      | Inl thrown \<Rightarrow>
          (case processSegment onProgress cleanup segmentCount task (Inl thrown) w of
             (Inr result, w1) \<Rightarrow>
               (case dispatchAll onProgress cleanup segmentCount extract rest w1 of
                  Inr (slots, w') \<Rightarrow> Inr (Settled result # slots, w')
                | Inl err \<Rightarrow> Inl err)
           | (Inl err, w1) \<Rightarrow> Inl err))"

text \<open>
  The requests complete in the order \<open>completionOrder\<close> (positions in the batch);
  \<open>callASRAPI\<close> is the outcome of the request for the audio data. Each completion runs the
  rest of its \<open>processSegment\<close>.
\<close>

fun completeAll ::
  "(int \<Rightarrow> jsstring \<Rightarrow> 's effect) option \<Rightarrow> (segmentTask \<Rightarrow> error option) \<Rightarrow> int
     \<Rightarrow> ('a \<Rightarrow> error + jsstring) \<Rightarrow> segmentTask list \<Rightarrow> nat list \<Rightarrow> 'a slot list \<Rightarrow> nat \<times> 's
     \<Rightarrow> error + ('a slot list \<times> (nat \<times> 's))" where
  "completeAll onProgress cleanup segmentCount callASRAPI batch [] slots w = Inr (slots, w)"
| "completeAll onProgress cleanup segmentCount callASRAPI batch (pos # completionOrder) slots w =
     (if pos < length slots then
        (case slots ! pos of
           Waiting audioBase64 \<Rightarrow>
             (case processSegment onProgress cleanup segmentCount (batch ! pos)
                     (callASRAPI audioBase64) w of
                (Inr result, w1) \<Rightarrow>
                  completeAll onProgress cleanup segmentCount callASRAPI batch completionOrder
                    (slots[pos := Settled result]) w1
              | (Inl err, w1) \<Rightarrow> Inl err)
         | Settled result \<Rightarrow>
             completeAll onProgress cleanup segmentCount callASRAPI batch completionOrder slots w)
      else completeAll onProgress cleanup segmentCount callASRAPI batch completionOrder slots w)"

text \<open>
  \<open>await Promise.all(batch.map(processSegment))\<close>: the array of the results in the order
  of the batch once every call has settled; pending while a request has not completed.
\<close>

definition settledResults :: "'a slot list \<Rightarrow> segmentResult list option" where
  "settledResults slots =
     (if list_all (\<lambda>slot. case slot of Settled result \<Rightarrow> True | Waiting audioBase64 \<Rightarrow> False) slots
      then Some (map (\<lambda>slot. case slot of Settled result \<Rightarrow> result) slots) else None)"

definition promiseAll ::
  "(int \<Rightarrow> jsstring \<Rightarrow> 's effect) option \<Rightarrow> (segmentTask \<Rightarrow> error option) \<Rightarrow> int
     \<Rightarrow> (segmentTask \<Rightarrow> error + 'a) \<Rightarrow> ('a \<Rightarrow> error + jsstring) \<Rightarrow> nat list \<Rightarrow> segmentTask list
     \<Rightarrow> nat \<times> 's \<Rightarrow> (segmentResult list \<times> (nat \<times> 's)) promise" where
  "promiseAll onProgress cleanup segmentCount extract callASRAPI completionOrder batch w =
     (case dispatchAll onProgress cleanup segmentCount extract batch w of
        Inl err \<Rightarrow> Rejected err
      | Inr (slots, w1) \<Rightarrow>
          (case completeAll onProgress cleanup segmentCount callASRAPI batch completionOrder
                  slots w1 of
             Inl err \<Rightarrow> Rejected err
           | Inr (slots', w2) \<Rightarrow>
               (case settledResults slots' of
                  Some batchResults \<Rightarrow> Resolved (batchResults, w2)
                | None \<Rightarrow> Pending)))"

text \<open>
  The batch loop: \<open>schedule i\<close> is the completion order of the batch that starts at
  task \<open>i\<close>; a batch is awaited before the next one starts.
\<close>

function runBatches ::
  "(int \<Rightarrow> jsstring \<Rightarrow> 's effect) option \<Rightarrow> (segmentTask \<Rightarrow> error option) \<Rightarrow> int
     \<Rightarrow> (segmentTask \<Rightarrow> error + 'a) \<Rightarrow> ('a \<Rightarrow> error + jsstring) \<Rightarrow> (nat \<Rightarrow> nat list)
     \<Rightarrow> segmentTask list \<Rightarrow> nat \<Rightarrow> segmentResult list \<Rightarrow> nat \<times> 's
     \<Rightarrow> (segmentResult list \<times> (nat \<times> 's)) promise" where
  "runBatches onProgress cleanup segmentCount extract callASRAPI schedule tasks i allResults w =
     (if i < length tasks then
        (case promiseAll onProgress cleanup segmentCount extract callASRAPI (schedule i)
                (take CONCURRENT_LIMIT (drop i tasks)) w of
           Resolved (batchResults, w1) \<Rightarrow>
             runBatches onProgress cleanup segmentCount extract callASRAPI schedule tasks
               (i + CONCURRENT_LIMIT) (allResults @ batchResults) w1
         | Rejected err \<Rightarrow> Rejected err
         | Pending \<Rightarrow> Pending)
      else Resolved (allResults, w))"
  by pat_completeness auto
termination
  by (relation "measure (\<lambda>(onProgress, cleanup, segmentCount, extract, callASRAPI, schedule,
                            tasks, i, allResults, w). length tasks - i)")
     (auto simp: CONCURRENT_LIMIT_def)

declare runBatches.simps [simp del]

text \<open>
  \<open>transcribeAudio\<close>: rejects when \<open>ffmpeg\<close> is missing or creating the temporary
  directory throws (\<open>ensureTempDir\<close>: the error of \<open>mkdirSync\<close>, if any); otherwise runs
  the batches, sorts the results by index (a stable sort), takes their texts, reports
  the end to \<open>onProgress\<close> and resolves with the texts joined with line feeds.
\<close>

definition transcribeAudio ::
  "bool \<Rightarrow> error option \<Rightarrow> (segmentTask \<Rightarrow> error + 'a) \<Rightarrow> ('a \<Rightarrow> error + jsstring)
     \<Rightarrow> (segmentTask \<Rightarrow> error option) \<Rightarrow> (nat \<Rightarrow> nat list) \<Rightarrow> rat \<Rightarrow> rat
     \<Rightarrow> (int \<Rightarrow> jsstring \<Rightarrow> 's effect) option \<Rightarrow> 's \<Rightarrow> jsstring promise" where
  "transcribeAudio checkFFmpeg ensureTempDir extract callASRAPI cleanup schedule startTime endTime
       onProgress s =
     (if \<not> checkFFmpeg then
        Rejected (Error [0x66, 0x66, 0x6D, 0x70, 0x65, 0x67, 0x20, 0x672A, 0x5B89, 0x88C5,
                         0xFF0C, 0x8BF7, 0x5148, 0x5B89, 0x88C5, 0x20,
                         0x66, 0x66, 0x6D, 0x70, 0x65, 0x67])
      else case ensureTempDir of
        Some err \<Rightarrow> Rejected err
      | None \<Rightarrow>
          (let segmentCount = \<lceil>(endTime - startTime) / 60\<rceil> in
           case runBatches onProgress cleanup segmentCount extract callASRAPI schedule
                  (segmentTasks startTime endTime) 0 [] (0, s) of
             Resolved (allResults, w) \<Rightarrow>
               (let results = map resultText (sort_key resultIndex allResults) in
                case callProgress onProgress 100 transcriptionDone (snd w) of
                  (None, s1) \<Rightarrow> Resolved (join [0x0A] results)
                | (Some err, s1) \<Rightarrow> Rejected err)
           | Rejected err \<Rightarrow> Rejected err
           | Pending \<Rightarrow> Pending))"

text \<open>
  The object \<open>processSegment\<close> returns for a task, given the outcome of its \<open>try\<close> up
  to the recognised text and an \<open>onProgress\<close> that returns: the text with
  \<open>success: true\<close>, or the placeholder with \<open>success: false\<close>. \<open>chunkOutcome\<close> is that
  outcome for a task: what \<open>extract\<close> throws, or the outcome of the request.
\<close>

definition segmentOutcome :: "segmentTask \<Rightarrow> error + jsstring \<Rightarrow> segmentResult" where
  "segmentOutcome task outcome =
     (case outcome of
        Inr recognised \<Rightarrow> \<lparr>resultIndex = index task, resultText = recognised, success = True\<rparr>
      | Inl err \<Rightarrow>
          \<lparr>resultIndex = index task, resultText = failedText (index task), success = False\<rparr>)"

definition chunkOutcome ::
  "(segmentTask \<Rightarrow> error + 'a) \<Rightarrow> ('a \<Rightarrow> error + jsstring) \<Rightarrow> segmentTask \<Rightarrow> error + jsstring" where
  "chunkOutcome extract callASRAPI task =
     (case extract task of Inr audioBase64 \<Rightarrow> callASRAPI audioBase64 | Inl err \<Rightarrow> Inl err)"

text \<open>
  Concrete runs for evaluation: every chunk is cut out, the audio data being the chunk's
  index; the request for chunk 1 fails, chunk \<open>i\<close> otherwise is recognised as the letter
  \<open>A\<close> + \<open>i\<close>; the requests of a batch complete in reverse order; the temporary files are
  removed, or removing them throws \<open>busy\<close>. With \<open>noRecognition\<close> every request fails.
\<close>

definition extractIndex :: "segmentTask \<Rightarrow> error + nat" where
  "extractIndex task = Inr (index task)"

definition chunk1_fails :: "nat \<Rightarrow> error + jsstring" where
  "chunk1_fails audioBase64 =
     (if audioBase64 = 1 then Inl (Error [0x65]) else Inr [of_nat (65 + audioBase64)])"

definition lastFirst :: "nat \<Rightarrow> nat list" where
  "lastFirst i = [2, 1, 0]"

definition filesRemoved :: "segmentTask \<Rightarrow> error option" where
  "filesRemoved task = None"

definition filesBusy :: "segmentTask \<Rightarrow> error option" where
  "filesBusy task = Some (Error [0x62, 0x75, 0x73, 0x79])"

definition noRecognition :: "nat \<Rightarrow> error + jsstring" where
  "noRecognition audioBase64 = Inl (Error [0x65])"

section \<open>Script generator\<close>

text \<open>
  The values \<open>JSON.parse\<close> produces. Numbers are rationals; an object is the list of its
  members in source order, a later member overriding an earlier one of the same key.
\<close>

datatype json =
    JNull
  | JBool bool
  | JNumber rat
  | JString jsstring
  | JArray "json list"
  | JObject "(jsstring \<times> json) list"

text \<open>Truthiness, as \<open>||\<close>, \<open>&&\<close>, \<open>!\<close> and \<open>if\<close> test it; \<open>None\<close> is \<open>undefined\<close>.\<close>

fun truthy :: "json \<Rightarrow> bool" where
  "truthy JNull = False"
| "truthy (JBool b) = b"
| "truthy (JNumber n) = (n \<noteq> 0)"
| "truthy (JString s) = (s \<noteq> [])"
| "truthy (JArray xs) = True"
| "truthy (JObject kvs) = True"

definition truthyOpt :: "json option \<Rightarrow> bool" where
  "truthyOpt r = (case r of None \<Rightarrow> False | Some v \<Rightarrow> truthy v)"

text \<open>
  Reading one of the properties \<open>title\<close>, \<open>script\<close>, \<open>imagePrompt\<close>, \<open>image_prompt\<close>,
  \<open>subtitle\<close>, \<open>subtitles\<close>, \<open>slides\<close> of a parsed value: a \<open>TypeError\<close> on \<open>null\<close>
  (\<open>getProp\<close>); otherwise (\<open>propertyOf\<close>) the member of an object, and \<open>undefined\<close> on every
  other value (none of them has such a property).
\<close>

definition typeError :: error where
  "typeError = Error [0x54, 0x79, 0x70, 0x65, 0x45, 0x72, 0x72, 0x6F, 0x72]"

fun propertyOf :: "json \<Rightarrow> jsstring \<Rightarrow> json option" where
  "propertyOf (JObject kvs) key = map_of (rev kvs) key"
| "propertyOf v key = None"

definition getProp :: "json \<Rightarrow> jsstring \<Rightarrow> error + json option" where
  "getProp v key = (if v = JNull then Inl typeError else Inr (propertyOf v key))"

text \<open>\<open>a || b\<close> on possibly undefined values, and with a defined right operand.\<close>

definition orElse :: "json option \<Rightarrow> json option \<Rightarrow> json option" where
  "orElse a b = (if truthyOpt a then a else b)"

definition orDefault :: "json option \<Rightarrow> json \<Rightarrow> json" where
  "orDefault a d = (case a of None \<Rightarrow> d | Some v \<Rightarrow> if truthy v then v else d)"

subsection \<open>The two regular expressions of the parse attempts\<close>

text \<open>
  \<open>response.match(/\{[\s\S]*"slides"[\s\S]*\}/)\<close>: the leftmost match starts at the first
  \<open>{\<close>; both stars are greedy, so it ends at the last \<open>}\<close>; it exists when the text
  \<open>"slides"\<close> occurs strictly between the two. \<open>response.match(/\[[\s\S]*\]/)\<close>: from
  the first \<open>[\<close> to the last \<open>]\<close>, when that comes later.
\<close>

definition matchSlidesObject :: "jsstring \<Rightarrow> jsstring option" where
  "matchSlidesObject response =
     (let a = indexOf response 0x7B; z = lastIndexOf response 0x7D
      in if 0 \<le> a \<and> a < z
            \<and> js_includes (substring response (nat a + 1) (nat z))
                  [0x22, 0x73, 0x6C, 0x69, 0x64, 0x65, 0x73, 0x22]
         then Some (substring response (nat a) (nat z + 1)) else None)"

definition matchArray :: "jsstring \<Rightarrow> jsstring option" where
  "matchArray response =
     (let a = indexOf response 0x5B; z = lastIndexOf response 0x5D
      in if 0 \<le> a \<and> a < z then Some (substring response (nat a) (nat z + 1)) else None)"

subsection \<open>Repairing the response\<close>

text \<open>
  \<open>jsonStr.replace(/,(\s*[}\]])/g, '$1')\<close> drops every comma that is followed by
  optional white space and a closing bracket. What a match puts back (the white space and
  the bracket) holds no comma, so scanning on right after the dropped comma gives the
  same string as scanning on after the match.
\<close>

definition beforeClosing :: "jsstring \<Rightarrow> bool" where
  "beforeClosing s =
     (case dropWhile isWhiteSpace s of [] \<Rightarrow> False | d # ds \<Rightarrow> d = 0x7D \<or> d = 0x5D)"

fun dropTrailingCommas :: "jsstring \<Rightarrow> jsstring" where
  "dropTrailingCommas [] = []"
| "dropTrailingCommas (c # cs) =
     (if c = 0x2C \<and> beforeClosing cs then dropTrailingCommas cs
      else c # dropTrailingCommas cs)"

definition escapeNewlines :: "jsstring \<Rightarrow> jsstring" where
  "escapeNewlines s = concat (map (\<lambda>c. if c = 0x0A then [0x5C, 0x6E] else [c]) s)"

definition fixJsonString :: "jsstring \<Rightarrow> jsstring" where
  "fixJsonString str =
     (let firstBrace = indexOf str 0x7B;
          firstBracket = indexOf str 0x5B;
          start = (if firstBrace \<ge> 0 \<and> firstBracket \<ge> 0 then min firstBrace firstBracket
                   else if firstBrace \<ge> 0 then firstBrace
                   else if firstBracket \<ge> 0 then firstBracket
                   else - 1);
          jsonStr = (if start \<ge> 0 then drop (nat start) str else str);
          lastBrace = lastIndexOf jsonStr 0x7D;
          lastBracket = lastIndexOf jsonStr 0x5D;
          end = max lastBrace lastBracket;
          jsonStr = (if end \<ge> 0 then take (nat end + 1) jsonStr else jsonStr)
      in escapeNewlines (dropTrailingCommas jsonStr))"

subsection \<open>Image prompts\<close>

text \<open>
  \<open>normalizeImagePrompt\<close> on a string. \<open>toLowerCase\<close> is the runtime's, a parameter.
  The style name is U+75AF U+72C2 U+52A8 U+7269 U+57CE.
\<close>

definition styleName :: jsstring where
  "styleName = [0x75AF, 0x72C2, 0x52A8, 0x7269, 0x57CE]"

definition zootopia :: jsstring where
  "zootopia = [0x7A, 0x6F, 0x6F, 0x74, 0x6F, 0x70, 0x69, 0x61]"

definition defaultImagePrompt :: jsstring where
  "defaultImagePrompt =
     [0x75AF, 0x72C2, 0x52A8, 0x7269, 0x57CE, 0x98CE, 0x683C, 0x63D2, 0x56FE, 0xFF0C, 0x8FEA,
      0x58EB, 0x5C3C, 0x76AE, 0x514B, 0x65AF, 0x753B, 0x8D28, 0xFF0C, 0x6731, 0x8FEA, 0x5154,
      0x5B50, 0x5728, 0x6E29, 0x99A8, 0x660E, 0x4EAE, 0x7684, 0x6559, 0x5BA4, 0x91CC]"

definition styleTag :: jsstring where
  "styleTag = [0x75AF, 0x72C2, 0x52A8, 0x7269, 0x57CE, 0x98CE, 0x683C, 0x63D2, 0x56FE, 0xFF0C]"

definition normalizeImagePrompt :: "(jsstring \<Rightarrow> jsstring) \<Rightarrow> jsstring \<Rightarrow> jsstring" where
  "normalizeImagePrompt toLowerCase prompt =
     (if prompt = [] then defaultImagePrompt
      else if \<not> js_includes prompt styleName \<and> \<not> js_includes (toLowerCase prompt) zootopia
      then styleTag @ prompt
      else prompt)"

text \<open>
  The same function on whatever value \<open>slide.imagePrompt || slide.image_prompt || ''\<close>
  is. A falsy value gives the default prompt. An array has \<open>includes\<close> (membership) but
  no \<open>toLowerCase\<close>: it is returned as it is when it holds the style name, and the call
  throws otherwise. Numbers, \<open>true\<close> and objects have no \<open>includes\<close>: the call throws.
\<close>

fun normalizeImagePromptValue :: "(jsstring \<Rightarrow> jsstring) \<Rightarrow> json \<Rightarrow> error + json" where
  "normalizeImagePromptValue toLowerCase (JString prompt) =
     Inr (JString (normalizeImagePrompt toLowerCase prompt))"
| "normalizeImagePromptValue toLowerCase (JArray xs) =
     (if JString styleName \<in> set xs then Inr (JArray xs) else Inl typeError)"
| "normalizeImagePromptValue toLowerCase v =
     (if \<not> truthy v then Inr (JString defaultImagePrompt) else Inl typeError)"

subsection \<open>Slides of the script\<close>

text \<open>
  A slide as \<open>generatePPTScript\<close> returns it. The fields hold whatever values the
  language model's JSON held; \<open>subtitles\<close> may be \<open>undefined\<close>.
\<close>

record scriptSlide =
  pptTitle :: json
  pptScript :: json
  pptImagePrompt :: json
  pptSubtitle :: json
  pptSubtitles :: "json option"

text \<open>The callback of \<open>result.slides.map\<close>; the first property read throws when the
  slide is \<open>null\<close>.\<close>

definition normalizeSlide :: "(jsstring \<Rightarrow> jsstring) \<Rightarrow> json \<Rightarrow> nat \<Rightarrow> error + scriptSlide" where
  "normalizeSlide toLowerCase slide i =
     (case getProp slide [0x74, 0x69, 0x74, 0x6C, 0x65] of
        Inl err \<Rightarrow> Inl err
      | Inr title \<Rightarrow>
         (case normalizeImagePromptValue toLowerCase
                 (orDefault
                    (orElse (propertyOf slide [0x69, 0x6D, 0x61, 0x67, 0x65, 0x50, 0x72, 0x6F, 0x6D,
                                         0x70, 0x74])
                            (propertyOf slide [0x69, 0x6D, 0x61, 0x67, 0x65, 0x5F, 0x70, 0x72, 0x6F,
                                         0x6D, 0x70, 0x74]))
                    (JString [])) of
            Inl err \<Rightarrow> Inl err
          | Inr imagePrompt \<Rightarrow>
              Inr \<lparr>pptTitle = orDefault title (JString ([0x7B2C] @ decimal (i + 1) @ [0x9875])),
                   pptScript = orDefault (propertyOf slide [0x73, 0x63, 0x72, 0x69, 0x70, 0x74])
                                 (JString []),
                   pptImagePrompt = imagePrompt,
                   pptSubtitle = orDefault (propertyOf slide [0x73, 0x75, 0x62, 0x74, 0x69, 0x74,
                                                        0x6C, 0x65])
                                   (JString []),
                   pptSubtitles = orElse (propertyOf slide [0x73, 0x75, 0x62, 0x74, 0x69, 0x74, 0x6C,
                                                      0x65, 0x73])
                                    None\<rparr>))"

fun normalizeSlides :: "(jsstring \<Rightarrow> jsstring) \<Rightarrow> nat \<Rightarrow> json list \<Rightarrow> error + scriptSlide list" where
  "normalizeSlides toLowerCase i [] = Inr []"
| "normalizeSlides toLowerCase i (slide # rest) =
     (case normalizeSlide toLowerCase slide i of
        Inl err \<Rightarrow> Inl err
      | Inr s \<Rightarrow>
         (case normalizeSlides toLowerCase (i + 1) rest of
            Inl err \<Rightarrow> Inl err
          | Inr ss \<Rightarrow> Inr (s # ss)))"

text \<open>The fixed five-slide script, with \<open>knowledgePoint\<close> and \<open>summary\<close> filled in.\<close>

definition generateDefaultScript :: "jsstring \<Rightarrow> jsstring \<Rightarrow> scriptSlide list" where
  "generateDefaultScript knowledgePoint summary =
     [
      \<lparr>pptTitle = JString (knowledgePoint),
       pptScript = JString
        ([0x8BFE, 0x4E0A, 0x8FD9, 0x4E2A] @ knowledgePoint @ [0x4F60, 0x6CA1, 0x592A, 0x542C,
       0x61C2, 0x662F, 0x5427, 0xFF0C, 0x6CA1, 0x5173, 0x7CFB, 0xFF0C, 0x6211, 0x6765,
       0x7ED9, 0x4F60, 0x8BB2, 0x8BB2, 0x3002, 0x54B1, 0x4EEC, 0x4E00, 0x8D77, 0x628A,
       0x8FD9, 0x4E2A, 0x77E5, 0x8BC6, 0x70B9, 0x641E, 0x6E05, 0x695A, 0x3002]),
       pptImagePrompt = JString
        ([0x75AF, 0x72C2, 0x52A8, 0x7269, 0x57CE, 0x98CE, 0x683C, 0x6559, 0x5B66, 0x63D2,
       0x56FE, 0xFF0C, 0x8FEA, 0x58EB, 0x5C3C, 0x76AE, 0x514B, 0x65AF, 0x753B, 0x8D28,
       0xFF1A, 0x753B, 0x9762, 0x4EE5, 0x7EFF, 0x8272, 0x5927, 0x9ED1, 0x677F, 0x4E3A,
       0x6838, 0x5FC3, 0xFF0C, 0x5360, 0x636E, 0x753B, 0x9762, 0x39, 0x30, 0x25, 0x4EE5,
       0x4E0A, 0xFF0C, 0x9ED1, 0x677F, 0x4E0A, 0x7528, 0x7C89, 0x7B14, 0x6E05, 0x6670,
       0x5199, 0x7740, 0x5927, 0x6807, 0x9898, 0x22] @ knowledgePoint @ [0x22, 0xFF08,
       0x4E2D, 0x6587, 0xFF09, 0xFF0C, 0x4E0B, 0x9762, 0x5217, 0x51FA, 0x672C, 0x8282,
       0x8BFE, 0x8981, 0x590D, 0x4E60, 0x7684, 0x91CD, 0x70B9, 0x548C, 0x8981, 0x70B9,
       0x3002, 0x6731, 0x8FEA, 0x5154, 0x5B50, 0x8001, 0x5E08, 0x53EA, 0x5728, 0x753B,
       0x9762, 0x8FB9, 0x7F18, 0x7B80, 0x5355, 0x51FA, 0x73B0, 0xFF0C, 0x6CA1, 0x6709,
       0x5176, 0x4ED6, 0x52A8, 0x7269, 0x89D2, 0x8272]),
       pptSubtitle = JString ([0x590D, 0x4E60, 0xFF1A] @ knowledgePoint),
       pptSubtitles = None\<rparr>,
      \<lparr>pptTitle = JString ([0x77E5, 0x8BC6, 0x8BB2, 0x89E3]),
       pptScript = JString
        ((if summary \<noteq> [] then summary
      else            [0x8BA9, 0x6211, 0x4EEC, 0x6765, 0x56DE, 0x987E, 0x4E00, 0x4E0B] @
            knowledgePoint @ [0x7684, 0x57FA, 0x672C, 0x6982, 0x5FF5, 0x548C, 0x6838,
            0x5FC3, 0x5185, 0x5BB9, 0x3002, 0x9996, 0x5148, 0xFF0C, 0x6211, 0x4EEC, 0x9700,
            0x8981, 0x7406, 0x89E3, 0x5B83, 0x7684, 0x5B9A, 0x4E49, 0x548C, 0x57FA, 0x672C,
            0x7279, 0x5F81, 0x3002])),
       pptImagePrompt = JString
        ([0x75AF, 0x72C2, 0x52A8, 0x7269, 0x57CE, 0x98CE, 0x683C, 0x6559, 0x5B66, 0x63D2,
       0x56FE, 0xFF0C, 0x8FEA, 0x58EB, 0x5C3C, 0x76AE, 0x514B, 0x65AF, 0x753B, 0x8D28,
       0xFF1A, 0x753B, 0x9762, 0x4EE5, 0x7EFF, 0x8272, 0x5927, 0x9ED1, 0x677F, 0x4E3A,
       0x6838, 0x5FC3, 0xFF0C, 0x5360, 0x636E, 0x753B, 0x9762, 0x39, 0x30, 0x25, 0x4EE5,
       0x4E0A, 0xFF0C, 0x9ED1, 0x677F, 0x4E0A, 0x7528, 0x7C89, 0x7B14, 0x6E05, 0x6670,
       0x5199, 0x7740, 0x22] @ knowledgePoint @ [0x22, 0x7684, 0x5B9A, 0x4E49, 0x3001,
       0x7279, 0x5F81, 0x548C, 0x6838, 0x5FC3, 0x8981, 0x70B9, 0xFF08, 0x4E2D, 0x6587,
       0xFF09, 0xFF0C, 0x65C1, 0x8FB9, 0x753B, 0x7740, 0x793A, 0x610F, 0x56FE, 0x548C,
       0x6807, 0x6CE8, 0x3002, 0x6731, 0x8FEA, 0x5154, 0x5B50, 0x8001, 0x5E08, 0x53EA,
       0x5728, 0x753B, 0x9762, 0x8FB9, 0x7F18, 0x7B80, 0x5355, 0x51FA, 0x73B0, 0xFF0C,
       0x6CA1, 0x6709, 0x5176, 0x4ED6, 0x52A8, 0x7269, 0x89D2, 0x8272]),
       pptSubtitle = JString ([0x6838, 0x5FC3, 0x6982, 0x5FF5]),
       pptSubtitles = None\<rparr>,
      \<lparr>pptTitle = JString ([0x8BE6, 0x7EC6, 0x89E3, 0x6790]),
       pptScript = JString
        ([0x63A5, 0x4E0B, 0x6765, 0xFF0C, 0x6211, 0x4EEC, 0x6DF1, 0x5165, 0x5206, 0x6790] @
       knowledgePoint @ [0x7684, 0x5177, 0x4F53, 0x5185, 0x5BB9, 0x548C, 0x5E94, 0x7528,
       0x65B9, 0x6CD5, 0x3002, 0x8BA9, 0x6211, 0x4EEC, 0x9010, 0x6B65, 0x7406, 0x89E3,
       0x5176, 0x4E2D, 0x7684, 0x5173, 0x952E, 0x8981, 0x7D20, 0x3002]),
       pptImagePrompt = JString
        ([0x75AF, 0x72C2, 0x52A8, 0x7269, 0x57CE, 0x98CE, 0x683C, 0x6559, 0x5B66, 0x63D2,
       0x56FE, 0xFF0C, 0x8FEA, 0x58EB, 0x5C3C, 0x76AE, 0x514B, 0x65AF, 0x753B, 0x8D28,
       0xFF1A, 0x753B, 0x9762, 0x4EE5, 0x7EFF, 0x8272, 0x5927, 0x9ED1, 0x677F, 0x4E3A,
       0x6838, 0x5FC3, 0xFF0C, 0x5360, 0x636E, 0x753B, 0x9762, 0x39, 0x30, 0x25, 0x4EE5,
       0x4E0A, 0xFF0C, 0x9ED1, 0x677F, 0x4E0A, 0x8BE6, 0x7EC6, 0x5217, 0x51FA] @
       knowledgePoint @ [0x7684, 0x5404, 0x4E2A, 0x8981, 0x7D20, 0x3001, 0x6B65, 0x9AA4,
       0x6216, 0x5206, 0x7C7B, 0xFF08, 0x4E2D, 0x6587, 0xFF09, 0xFF0C, 0x7528, 0x7C89,
       0x7B14, 0x6E05, 0x6670, 0x6807, 0x6CE8, 0x3002, 0x6731, 0x8FEA, 0x5154, 0x5B50,
       0x8001, 0x5E08, 0x53EA, 0x5728, 0x753B, 0x9762, 0x8FB9, 0x7F18, 0x7B80, 0x5355,
       0x51FA, 0x73B0, 0xFF0C, 0x6CA1, 0x6709, 0x5176, 0x4ED6, 0x52A8, 0x7269, 0x89D2,
       0x8272]),
       pptSubtitle = JString ([0x6DF1, 0x5165, 0x7406, 0x89E3]),
       pptSubtitles = None\<rparr>,
      \<lparr>pptTitle = JString ([0x4E3E, 0x4F8B, 0x8BF4, 0x660E]),
       pptScript = JString
        ([0x4E3A, 0x4E86, 0x66F4, 0x597D, 0x5730, 0x7406, 0x89E3] @ knowledgePoint @ [0xFF0C,
       0x6211, 0x4EEC, 0x6765, 0x770B, 0x4E00, 0x4E9B, 0x5177, 0x4F53, 0x7684, 0x4F8B,
       0x5B50, 0x3002, 0x8FD9, 0x4E9B, 0x4F8B, 0x5B50, 0x53EF, 0x4EE5, 0x5E2E, 0x52A9,
       0x6211, 0x4EEC, 0x638C, 0x63E1, 0x8FD9, 0x4E2A, 0x6982, 0x5FF5, 0x7684, 0x5B9E,
       0x9645, 0x5E94, 0x7528, 0x3002]),
       pptImagePrompt = JString
        ([0x75AF, 0x72C2, 0x52A8, 0x7269, 0x57CE, 0x98CE, 0x683C, 0x6559, 0x5B66, 0x63D2,
       0x56FE, 0xFF0C, 0x8FEA, 0x58EB, 0x5C3C, 0x76AE, 0x514B, 0x65AF, 0x753B, 0x8D28,
       0xFF1A, 0x753B, 0x9762, 0x4EE5, 0x7EFF, 0x8272, 0x5927, 0x9ED1, 0x677F, 0x4E3A,
       0x6838, 0x5FC3, 0xFF0C, 0x5360, 0x636E, 0x753B, 0x9762, 0x39, 0x30, 0x25, 0x4EE5,
       0x4E0A, 0xFF0C, 0x9ED1, 0x677F, 0x4E0A, 0x753B, 0x7740, 0x5177, 0x4F53, 0x7684,
       0x4F8B, 0x5B50, 0x548C, 0x89E3, 0x9898, 0x6B65, 0x9AA4, 0xFF08, 0x4E2D, 0x6587,
       0xFF09, 0xFF0C, 0x7528, 0x7C89, 0x7B14, 0x6E05, 0x6670, 0x6807, 0x6CE8, 0x3002,
       0x6731, 0x8FEA, 0x5154, 0x5B50, 0x8001, 0x5E08, 0x53EA, 0x5728, 0x753B, 0x9762,
       0x8FB9, 0x7F18, 0x7B80, 0x5355, 0x51FA, 0x73B0, 0xFF0C, 0x6CA1, 0x6709, 0x5176,
       0x4ED6, 0x52A8, 0x7269, 0x89D2, 0x8272]),
       pptSubtitle = JString ([0x5B9E, 0x4F8B, 0x5206, 0x6790]),
       pptSubtitles = None\<rparr>,
      \<lparr>pptTitle = JString ([0x8BFE, 0x5802, 0x5C0F, 0x7ED3]),
       pptScript = JString
        ([0x597D, 0x4E86, 0xFF0C] @ knowledgePoint @ [0x7684, 0x4E3B, 0x8981, 0x5185, 0x5BB9,
       0x5C31, 0x662F, 0x8FD9, 0x4E9B, 0x3002, 0x73B0, 0x5728, 0x5E94, 0x8BE5, 0x6E05,
       0x695A, 0x591A, 0x4E86, 0x5427, 0xFF1F, 0x6709, 0x4EC0, 0x4E48, 0x4E0D, 0x660E,
       0x767D, 0x7684, 0x968F, 0x65F6, 0x95EE, 0x6211, 0x54C8, 0x3002]),
       pptImagePrompt = JString
        ([0x75AF, 0x72C2, 0x52A8, 0x7269, 0x57CE, 0x98CE, 0x683C, 0x6559, 0x5B66, 0x63D2,
       0x56FE, 0xFF0C, 0x8FEA, 0x58EB, 0x5C3C, 0x76AE, 0x514B, 0x65AF, 0x753B, 0x8D28,
       0xFF1A, 0x753B, 0x9762, 0x4EE5, 0x7EFF, 0x8272, 0x5927, 0x9ED1, 0x677F, 0x4E3A,
       0x6838, 0x5FC3, 0xFF0C, 0x5360, 0x636E, 0x753B, 0x9762, 0x39, 0x30, 0x25, 0x4EE5,
       0x4E0A, 0xFF0C, 0x9ED1, 0x677F, 0x4E0A, 0x753B, 0x7740, 0x77E5, 0x8BC6, 0x70B9,
       0x603B, 0x7ED3, 0x7684, 0x601D, 0x7EF4, 0x5BFC, 0x56FE, 0x6216, 0x8981, 0x70B9,
       0x5217, 0x8868, 0xFF08, 0x4E2D, 0x6587, 0xFF09, 0xFF0C, 0x4E2D, 0x5FC3, 0x662F,
       0x22] @ knowledgePoint @ [0x22, 0xFF0C, 0x5468, 0x56F4, 0x8FDE, 0x63A5, 0x7740,
       0x5173, 0x952E, 0x5185, 0x5BB9, 0x3002, 0x6731, 0x8FEA, 0x5154, 0x5B50, 0x8001,
       0x5E08, 0x53EA, 0x5728, 0x753B, 0x9762, 0x8FB9, 0x7F18, 0x7B80, 0x5355, 0x51FA,
       0x73B0, 0xFF0C, 0x6CA1, 0x6709, 0x5176, 0x4ED6, 0x52A8, 0x7269, 0x89D2, 0x8272]),
       pptSubtitle = JString (knowledgePoint @ [0x20, 0x2D, 0x20, 0x603B, 0x7ED3, 0x56DE, 0x987E]),
       pptSubtitles = None\<rparr>
     ]"

subsection \<open>The parse attempts and \<open>generatePPTScript\<close>\<close>

text \<open>
  \<open>JSON.parse\<close> is the parameter \<open>parse\<close>: \<open>None\<close> when it throws. \<open>parseResponse\<close> is
  the value of \<open>result\<close> after the three attempts (\<open>None\<close> is \<open>null\<close>); an assignment
  whose \<open>JSON.parse\<close> throws does not happen.
\<close>

definition slidesKey :: jsstring where
  "slidesKey = [0x73, 0x6C, 0x69, 0x64, 0x65, 0x73]"

definition parseResponse :: "(jsstring \<Rightarrow> json option) \<Rightarrow> jsstring \<Rightarrow> json option" where
  "parseResponse parse response =
     (let result = None;
          result = (case matchSlidesObject response of
                      Some objectMatch \<Rightarrow>
                        (case parse objectMatch of Some v \<Rightarrow> Some v | None \<Rightarrow> result)
                    | None \<Rightarrow> result);
          result = (if \<not> truthyOpt result then
                      (case matchArray response of
                         Some arrayMatch \<Rightarrow>
                           (case parse arrayMatch of
                              Some (JArray slides) \<Rightarrow> Some (JObject [(slidesKey, JArray slides)])
                            | _ \<Rightarrow> result)
                       | None \<Rightarrow> result)
                    else result);
          result = (if \<not> truthyOpt result then
                      (let fixedJson = fixJsonString response
                       in if fixedJson \<noteq> [] then
                            (case parse fixedJson of
                               Some (JArray slides) \<Rightarrow> Some (JObject [(slidesKey, JArray slides)])
                             | Some v \<Rightarrow> Some v
                             | None \<Rightarrow> result)
                          else result)
                    else result)
      in result)"

text \<open>
  The body of the \<open>try\<close> after the request: the normalised slides, or the error thrown.
\<close>

definition unparsable :: error where
  "unparsable = Error [0x65E0, 0x6CD5, 0x89E3, 0x6790, 0x20, 0x4C, 0x4C, 0x4D, 0x20, 0x54CD, 0x5E94]"

definition slidesOfResponse ::
  "(jsstring \<Rightarrow> json option) \<Rightarrow> (jsstring \<Rightarrow> jsstring) \<Rightarrow> jsstring \<Rightarrow> error + scriptSlide list" where
  "slidesOfResponse parse toLowerCase response =
     (case parseResponse parse response of
        None \<Rightarrow> Inl unparsable
      | Some result \<Rightarrow>
          if truthy result then
            (case getProp result slidesKey of
               Inr (Some (JArray slides)) \<Rightarrow> normalizeSlides toLowerCase 0 slides
             | _ \<Rightarrow> Inl unparsable)
          else Inl unparsable)"

text \<open>
  The template literal of \<open>userPrompt\<close>, evaluated before the \<open>try\<close>, reads
  \<open>keyPoints.length\<close> and, when that is \<open>> 0\<close>, calls \<open>keyPoints.map\<close>. \<open>keyPoints\<close> is
  any value, \<open>None\<close> when the argument is left out (the default \<open>[]\<close> applies). Reading
  \<open>length\<close> of \<open>null\<close> is a \<open>TypeError\<close>; a string has its length, an object its
  \<open>length\<close> member, numbers and booleans have none (\<open>undefined > 0\<close> is false); only an
  array has a \<open>map\<close> to call. The comparison \<open>> 0\<close> of a \<open>length\<close> member that is a
  string, an array or an object is the parameter \<open>greaterThanZero\<close>.
\<close>

definition lengthKey :: jsstring where
  "lengthKey = [0x6C, 0x65, 0x6E, 0x67, 0x74, 0x68]"

definition jsGreaterThanZero :: "(json \<Rightarrow> bool) \<Rightarrow> json option \<Rightarrow> bool" where
  "jsGreaterThanZero greaterThanZero v =
     (case v of
        None \<Rightarrow> False
      | Some (JNumber n) \<Rightarrow> n > 0
      | Some (JBool b) \<Rightarrow> b
      | Some JNull \<Rightarrow> False
      | Some other \<Rightarrow> greaterThanZero other)"

definition userPromptThrows :: "(json \<Rightarrow> bool) \<Rightarrow> json option \<Rightarrow> error option" where
  "userPromptThrows greaterThanZero keyPoints =
     (case keyPoints of
        None \<Rightarrow> None
      | Some JNull \<Rightarrow> Some typeError
      | Some (JArray points) \<Rightarrow> None
      | Some (JString s) \<Rightarrow> (if s \<noteq> [] then Some typeError else None)
      | Some (JObject kvs) \<Rightarrow>
          (if jsGreaterThanZero greaterThanZero (propertyOf (JObject kvs) lengthKey)
           then Some typeError else None)
      | Some other \<Rightarrow> None)"

text \<open>
  \<open>generatePPTScript\<close>: a throw while the prompt is built rejects the promise (\<open>Inl\<close>);
  \<open>callLLM\<close> is the outcome of the request, the response text or the error thrown; the
  \<open>catch\<close> returns the default script.
\<close>

definition generatePPTScript ::
  "(jsstring \<Rightarrow> json option) \<Rightarrow> (jsstring \<Rightarrow> jsstring) \<Rightarrow> (json \<Rightarrow> bool) \<Rightarrow> error + jsstring
     \<Rightarrow> jsstring \<Rightarrow> jsstring \<Rightarrow> json option \<Rightarrow> error + scriptSlide list" where
  "generatePPTScript parse toLowerCase greaterThanZero callLLM knowledgePoint summary keyPoints =
     (case userPromptThrows greaterThanZero keyPoints of
        Some err \<Rightarrow> Inl err
      | None \<Rightarrow>
         (case callLLM of
            Inl err \<Rightarrow> Inr (generateDefaultScript knowledgePoint summary)
          | Inr response \<Rightarrow>
             (case slidesOfResponse parse toLowerCase response of
                Inr slides \<Rightarrow> Inr slides
              | Inl err \<Rightarrow> Inr (generateDefaultScript knowledgePoint summary))))"

subsection \<open>A JSON parser, for evaluating concrete responses\<close>

text \<open>
  The theorems about \<open>generatePPTScript\<close> hold for every function in the place of
  \<open>JSON.parse\<close>. To run the script generator on a concrete response, \<open>JSON_parse\<close>
  below reads the JSON grammar (ECMA-404) by recursive descent: white space, the three
  literals, numbers, strings with their escapes, arrays and objects. The recursion on
  nested values is bounded by a fuel of twice the length of the text plus two.
\<close>

definition isJsonSpace :: "jschar \<Rightarrow> bool" where
  "isJsonSpace c \<longleftrightarrow> c = 0x20 \<or> c = 0x09 \<or> c = 0x0A \<or> c = 0x0D"

definition isDigit :: "jschar \<Rightarrow> bool" where
  "isDigit c \<longleftrightarrow> 0x30 \<le> c \<and> c \<le> 0x39"

definition hexValue :: "jschar \<Rightarrow> nat option" where
  "hexValue c =
     (if 0x30 \<le> c \<and> c \<le> 0x39 then Some (unat c - 48)
      else if 0x41 \<le> c \<and> c \<le> 0x46 then Some (unat c - 55)
      else if 0x61 \<le> c \<and> c \<le> 0x66 then Some (unat c - 87)
      else None)"

definition unescape :: "jschar \<Rightarrow> jschar option" where
  "unescape e =
     (if e = 0x22 \<or> e = 0x5C \<or> e = 0x2F then Some e
      else if e = 0x62 then Some 0x08
      else if e = 0x66 then Some 0x0C
      else if e = 0x6E then Some 0x0A
      else if e = 0x72 then Some 0x0D
      else if e = 0x74 then Some 0x09
      else None)"

text \<open>The characters of a string after its opening quote, up to the closing quote.\<close>

fun parseStringChars :: "jsstring \<Rightarrow> jsstring \<Rightarrow> (jsstring \<times> jsstring) option" where
  "parseStringChars acc [] = None"
| "parseStringChars acc (c # cs) =
     (if c = 0x22 then Some (acc, cs)
      else if c = 0x5C then
        (case cs of
           [] \<Rightarrow> None
         | e # es \<Rightarrow>
            if e = 0x75 then
              (case es of
                 h1 # h2 # h3 # h4 # rest \<Rightarrow>
                   (case (hexValue h1, hexValue h2, hexValue h3, hexValue h4) of
                      (Some a, Some b, Some c', Some d) \<Rightarrow>
                        parseStringChars
                          (acc @ [of_nat (((a * 16 + b) * 16 + c') * 16 + d)]) rest
                    | _ \<Rightarrow> None)
               | _ \<Rightarrow> None)
            else (case unescape e of
                    Some x \<Rightarrow> parseStringChars (acc @ [x]) es
                  | None \<Rightarrow> None))
      else if c < 0x20 then None
      else parseStringChars (acc @ [c]) cs)"

definition digitsValue :: "jsstring \<Rightarrow> nat" where
  "digitsValue ds = foldl (\<lambda>n c. 10 * n + (unat c - 48)) 0 ds"

text \<open>
  A number: an optional minus, an integer part without a leading zero, an optional
  fraction, an optional exponent.
\<close>

definition parseNumber :: "jsstring \<Rightarrow> (rat \<times> jsstring) option" where
  "parseNumber s =
     (let negative = (s \<noteq> [] \<and> hd s = 0x2D);
          s1 = (if negative then tl s else s);
          intDigits = takeWhile isDigit s1;
          s2 = dropWhile isDigit s1;
          hasFraction = (s2 \<noteq> [] \<and> hd s2 = 0x2E);
          fracDigits = (if hasFraction then takeWhile isDigit (tl s2) else []);
          s3 = (if hasFraction then dropWhile isDigit (tl s2) else s2);
          hasExponent = (s3 \<noteq> [] \<and> (hd s3 = 0x65 \<or> hd s3 = 0x45));
          s4 = (if hasExponent then tl s3 else s3);
          expNegative = (hasExponent \<and> s4 \<noteq> [] \<and> hd s4 = 0x2D);
          s5 = (if hasExponent \<and> s4 \<noteq> [] \<and> (hd s4 = 0x2D \<or> hd s4 = 0x2B) then tl s4 else s4);
          expDigits = (if hasExponent then takeWhile isDigit s5 else []);
          s6 = (if hasExponent then dropWhile isDigit s5 else s5);
          mantissa = of_nat (digitsValue intDigits)
                     + of_nat (digitsValue fracDigits) / 10 ^ length fracDigits;
          scaled = (if expNegative then mantissa / 10 ^ digitsValue expDigits
                    else mantissa * 10 ^ digitsValue expDigits)
      in if intDigits = [] \<or> (length intDigits > 1 \<and> hd intDigits = 0x30)
            \<or> (hasFraction \<and> fracDigits = []) \<or> (hasExponent \<and> expDigits = [])
         then None
         else Some (if negative then - scaled else scaled, s6))"

fun parseValue :: "nat \<Rightarrow> jsstring \<Rightarrow> (json \<times> jsstring) option"
  and parseElements :: "nat \<Rightarrow> json list \<Rightarrow> jsstring \<Rightarrow> (json list \<times> jsstring) option"
  and parseMembers ::
    "nat \<Rightarrow> (jsstring \<times> json) list \<Rightarrow> jsstring \<Rightarrow> ((jsstring \<times> json) list \<times> jsstring) option"
where
  "parseValue 0 s = None"
| "parseValue (Suc fuel) s =
     (case s of
        [] \<Rightarrow> None
      | c # cs \<Rightarrow>
         if c = 0x22 then
           (case parseStringChars [] cs of
              Some (str, rest) \<Rightarrow> Some (JString str, rest)
            | None \<Rightarrow> None)
         else if c = 0x5B then
           (case dropWhile isJsonSpace cs of
              [] \<Rightarrow> None
            | d # ds \<Rightarrow>
               if d = 0x5D then Some (JArray [], ds)
               else (case parseElements fuel [] (d # ds) of
                       Some (vs, rest) \<Rightarrow> Some (JArray vs, rest)
                     | None \<Rightarrow> None))
         else if c = 0x7B then
           (case dropWhile isJsonSpace cs of
              [] \<Rightarrow> None
            | d # ds \<Rightarrow>
               if d = 0x7D then Some (JObject [], ds)
               else (case parseMembers fuel [] (d # ds) of
                       Some (kvs, rest) \<Rightarrow> Some (JObject kvs, rest)
                     | None \<Rightarrow> None))
         else if take 4 s = [0x74, 0x72, 0x75, 0x65] then Some (JBool True, drop 4 s)
         else if take 5 s = [0x66, 0x61, 0x6C, 0x73, 0x65] then Some (JBool False, drop 5 s)
         else if take 4 s = [0x6E, 0x75, 0x6C, 0x6C] then Some (JNull, drop 4 s)
         else (case parseNumber s of
                 Some (n, rest) \<Rightarrow> Some (JNumber n, rest)
               | None \<Rightarrow> None))"
| "parseElements 0 acc s = None"
| "parseElements (Suc fuel) acc s =
     (case parseValue fuel s of
        None \<Rightarrow> None
      | Some (v, rest) \<Rightarrow>
         (case dropWhile isJsonSpace rest of
            [] \<Rightarrow> None
          | c # cs \<Rightarrow>
             if c = 0x2C then parseElements fuel (acc @ [v]) (dropWhile isJsonSpace cs)
             else if c = 0x5D then Some (acc @ [v], cs)
             else None))"
| "parseMembers 0 acc s = None"
| "parseMembers (Suc fuel) acc s =
     (case s of
        [] \<Rightarrow> None
      | c # cs \<Rightarrow>
         if c = 0x22 then
           (case parseStringChars [] cs of
              None \<Rightarrow> None
            | Some (key, rest) \<Rightarrow>
               (case dropWhile isJsonSpace rest of
                  [] \<Rightarrow> None
                | d # ds \<Rightarrow>
                   if d = 0x3A then
                     (case parseValue fuel (dropWhile isJsonSpace ds) of
                        None \<Rightarrow> None
                      | Some (v, rest') \<Rightarrow>
                         (case dropWhile isJsonSpace rest' of
                            [] \<Rightarrow> None
                          | e # es \<Rightarrow>
                             if e = 0x2C then
                               parseMembers fuel (acc @ [(key, v)]) (dropWhile isJsonSpace es)
                             else if e = 0x7D then Some (acc @ [(key, v)], es)
                             else None))
                   else None))
         else None)"

definition JSON_parse :: "jsstring \<Rightarrow> json option" where
  "JSON_parse s =
     (case parseValue (2 * length s + 2) (dropWhile isJsonSpace s) of
        Some (v, rest) \<Rightarrow> if dropWhile isJsonSpace rest = [] then Some v else None
      | None \<Rightarrow> None)"

text \<open>
  Concrete inputs for evaluation: lowercasing of the ASCII letters (all that
  \<open>toLowerCase\<close> changes in the strings evaluated), the responses \<open>{"slides": []}\<close>
  and \<open>{"slides": [{"title": "T"}]}\<close>, and a knowledge point.
\<close>

definition asciiLowerCase :: "jsstring \<Rightarrow> jsstring" where
  "asciiLowerCase s = map (\<lambda>c. if 0x41 \<le> c \<and> c \<le> 0x5A then c + 0x20 else c) s"

definition response_emptySlides :: jsstring where
  "response_emptySlides =
     [0x7B, 0x22, 0x73, 0x6C, 0x69, 0x64, 0x65, 0x73, 0x22, 0x3A, 0x20, 0x5B, 0x5D, 0x7D]"

definition response_oneSlide :: jsstring where
  "response_oneSlide =
     [0x7B, 0x22, 0x73, 0x6C, 0x69, 0x64, 0x65, 0x73, 0x22, 0x3A, 0x20, 0x5B,
      0x7B, 0x22, 0x74, 0x69, 0x74, 0x6C, 0x65, 0x22, 0x3A, 0x20, 0x22, 0x54, 0x22, 0x7D,
      0x5D, 0x7D]"

definition knowledgePoint_K :: jsstring where
  "knowledgePoint_K = [0x4B]"

section \<open>Text-to-speech: splitting long texts\<close>









section \<open>Theorems\<close>

subsection \<open>Duration probing\<close>

text \<open>
  C7 (as stated): the duration probe used by the marker orchestrator never throws and
  yields 5 when probing fails. The orchestrator's probe is \<open>asr_getAudioDuration\<close>;
  when the subprocess fails it rethrows the failure instead of returning 5.
\<close>

theorem C7_asr_getAudioDuration_rethrows:
  "asr_getAudioDuration ffprobe_fails parseFloat_12 0 = Inl (Error [0x66, 0x61, 0x69, 0x6C])
   \<and> asr_getAudioDuration ffprobe_fails parseFloat_12 0 \<noteq> Inr (Num 5)"
  by (simp add: asr_getAudioDuration_def ffprobe_fails_def)

text \<open>
  C7 (amended): the video synthesizer's private probe never throws: for every path and
  every outcome of the subprocess it returns a number, the parsed output when the probe
  succeeds and 5 when it fails. The probe exported by the speech-recognition service and
  used by the marker orchestrator returns the parsed output when the probe succeeds and
  rethrows the probe's failure otherwise.
\<close>

theorem C7_getAudioDuration:
  "(\<exists>n. videoSynth_getAudioDuration execSync parseFloat p = Inr n)
   \<and> (\<forall>err. execSync p = Inl err \<longrightarrow>
         videoSynth_getAudioDuration execSync parseFloat p = Inr (Num 5)
         \<and> asr_getAudioDuration execSync parseFloat p = Inl err)
   \<and> (\<forall>out. execSync p = Inr out \<longrightarrow>
         videoSynth_getAudioDuration execSync parseFloat p = Inr (parseFloat (trim out))
         \<and> asr_getAudioDuration execSync parseFloat p = Inr (parseFloat (trim out)))"
  by (cases "execSync p") (simp_all add: videoSynth_getAudioDuration_def asr_getAudioDuration_def)

theorem C7_getAudioDuration_witness:
  "videoSynth_getAudioDuration ffprobe_fails parseFloat_12 0 = Inr (Num 5)
   \<and> videoSynth_getAudioDuration ffprobe_prints_12 parseFloat_12 0 = Inr (Num 12)
   \<and> asr_getAudioDuration ffprobe_prints_12 parseFloat_12 0 = Inr (Num 12)"
  using C7_getAudioDuration [of ffprobe_fails parseFloat_12 0]
        C7_getAudioDuration [of ffprobe_prints_12 parseFloat_12 0]
  by (simp add: ffprobe_fails_def ffprobe_prints_12_def parseFloat_12_def trim_def
        isWhiteSpace_def)

subsection \<open>Subtitle timer: the cues of one segment\<close>

lemma splitByComma_nonempty: "splitByComma t m \<noteq> []"
  by (auto simp: splitByComma_def Let_def)

lemma segmentCues_nonempty: "segmentCues seg t d \<noteq> []"
  using splitByComma_nonempty [of seg 25] by (simp add: segmentCues_def Let_def)

lemma segmentCues_hd_start: "start (hd (segmentCues seg t d)) = t"
proof (cases "length seg > 25")
  case True
  have "0 < length (splitByComma seg 25)" using splitByComma_nonempty [of seg 25] by simp
  then show ?thesis using True
    by (simp add: segmentCues_def Let_def hd_map upt_conv_Cons)
next
  case False
  then show ?thesis by (simp add: segmentCues_def)
qed

lemma frac_index_le:
  fixes d :: rat
  assumes "0 \<le> d" "i \<le> n" "0 < n"
  shows "of_nat i * (d / of_nat n) \<le> d"
proof -
  have "of_nat i * (d / of_nat n) = d * (of_nat i / of_nat n)" by simp
  also have "\<dots> \<le> d * 1"
    using assms by (intro mult_left_mono) (simp_all add: divide_le_eq)
  finally show ?thesis by simp
qed

lemma of_nat_pred: "0 < n \<Longrightarrow> rat_of_nat (n - Suc 0) = of_nat n - 1"
  by (cases n) simp_all

lemma segmentCues_starts:
  assumes "0 \<le> d" "c \<in> set (segmentCues seg t d)"
  shows "t \<le> start c \<and> start c \<le> t + d"
proof (cases "length seg > 25")
  case True
  let ?n = "length (splitByComma seg 25)"
  from assms(2) True obtain i where i: "i < ?n" "start c = t + of_nat i * (d / of_nat ?n)"
    by (auto simp: segmentCues_def Let_def)
  have "0 \<le> of_nat i * (d / of_nat ?n)" using assms(1) by simp
  moreover have "of_nat i * (d / of_nat ?n) \<le> d"
    by (rule frac_index_le [OF assms(1)]) (use i(1) in auto)
  ultimately show ?thesis using i(2) by simp
next
  case False
  then show ?thesis using assms by (simp add: segmentCues_def)
qed

lemma segmentCues_sorted:
  assumes "0 \<le> d"
  shows "sorted (map start (segmentCues seg t d))"
proof (cases "length seg > 25")
  case True
  let ?n = "length (splitByComma seg 25)"
  have "sorted (map (\<lambda>i. t + of_nat i * (d / of_nat ?n)) [0..<?n])"
    using assms by (auto simp: sorted_iff_nth_mono intro!: divide_right_mono mult_right_mono)
  then show ?thesis using True by (simp add: segmentCues_def Let_def comp_def)
next
  case False
  then show ?thesis by (simp add: segmentCues_def)
qed

lemma segmentCues_last_end:
  "start (last (segmentCues seg t d)) + duration (last (segmentCues seg t d)) =
     (if length seg > 25 then
        t + (of_nat (length (splitByComma seg 25)) - 1) * (d / of_nat (length (splitByComma seg 25)))
          + max 1 (d / of_nat (length (splitByComma seg 25)))
      else t + d)"
proof (cases "length seg > 25")
  case True
  let ?n = "length (splitByComma seg 25)"
  have n: "0 < ?n" using splitByComma_nonempty [of seg 25] by simp
  have ne: "[0..<?n] \<noteq> []" using n by simp
  have l: "last [0..<?n] = ?n - Suc 0" using n by (simp add: last_upt)
  have pn: "rat_of_nat (?n - Suc 0) = of_nat ?n - 1" by (rule of_nat_pred [OF n])
  show ?thesis using True ne l
    by (simp add: segmentCues_def Let_def last_map pn)
next
  case False
  then show ?thesis by (simp add: segmentCues_def)
qed

lemma segmentCues_duration_ge:
  assumes "3 / 2 \<le> d" "c \<in> set (segmentCues seg t d)"
  shows "1 \<le> duration c"
  using assms by (auto simp: segmentCues_def Let_def split: if_splits)

lemma segmentCues_duration_le:
  assumes "0 \<le> d" "d \<le> 8" "c \<in> set (segmentCues seg t d)"
  shows "duration c \<le> 8"
proof (cases "length seg > 25")
  case True
  let ?n = "length (splitByComma seg 25)"
  have n: "0 < ?n" using splitByComma_nonempty [of seg 25] by simp
  have "d / of_nat ?n \<le> d"
    using frac_index_le [of d 1 ?n] assms(1) n by simp
  then have "max 1 (d / of_nat ?n) \<le> 8" using assms(2) by simp
  then show ?thesis using assms(3) True by (auto simp: segmentCues_def Let_def)
next
  case False
  then show ?thesis using assms by (simp add: segmentCues_def)
qed

lemma clampDuration_bounds: "3 / 2 \<le> clampDuration tot tc seg \<and> clampDuration tot tc seg \<le> 8"
  by (simp add: clampDuration_def)

lemma concat_cueGroups: "concat (cueGroups tot tc t segs) = timeSegments tot tc t segs"
  by (induction segs arbitrary: t) (simp_all add: Let_def)

lemma length_cueGroups: "length (cueGroups tot tc t segs) = length segs"
  by (induction segs arbitrary: t) (simp_all add: Let_def)

lemma timeSegments_nonempty: "segs \<noteq> [] \<Longrightarrow> timeSegments tot tc t segs \<noteq> []"
  by (cases segs) (simp_all add: Let_def segmentCues_nonempty)

lemma timeSegments_hd: "segs \<noteq> [] \<Longrightarrow> start (hd (timeSegments tot tc t segs)) = t"
  by (cases segs) (simp_all add: Let_def segmentCues_nonempty segmentCues_hd_start)

lemma timeSegments_starts_ge:
  "c \<in> set (timeSegments tot tc t segs) \<Longrightarrow> t \<le> start c"
proof (induction segs arbitrary: t)
  case Nil
  then show ?case by simp
next
  case (Cons seg rest)
  define dur where "dur = (if rest = [] then max (3 / 2) (tot - t) else clampDuration tot tc seg)"
  have d: "0 \<le> dur" using clampDuration_bounds [of tot tc seg]
    by (simp add: dur_def le_max_iff_disj)
  from Cons.prems have "c \<in> set (segmentCues seg t dur) \<or> c \<in> set (timeSegments tot tc (t + dur) rest)"
    by (simp add: Let_def dur_def)
  then show ?case
  proof
    assume "c \<in> set (segmentCues seg t dur)"
    then show ?thesis using segmentCues_starts [OF d] by blast
  next
    assume "c \<in> set (timeSegments tot tc (t + dur) rest)"
    then have "t + dur \<le> start c" by (rule Cons.IH)
    then show ?thesis using d by simp
  qed
qed

lemma timeSegments_sorted: "sorted (map start (timeSegments tot tc t segs))"
proof (induction segs arbitrary: t)
  case Nil
  then show ?case by simp
next
  case (Cons seg rest)
  define dur where "dur = (if rest = [] then max (3 / 2) (tot - t) else clampDuration tot tc seg)"
  have d: "0 \<le> dur" using clampDuration_bounds [of tot tc seg]
    by (simp add: dur_def le_max_iff_disj)
  have "\<forall>x\<in>set (segmentCues seg t dur). \<forall>y\<in>set (timeSegments tot tc (t + dur) rest). start x \<le> start y"
    using segmentCues_starts [OF d] timeSegments_starts_ge by fastforce
  then show ?case
    using Cons.IH [of "t + dur"] segmentCues_sorted [OF d, of seg t]
    by (simp add: Let_def dur_def [symmetric] sorted_append)
qed

lemma successively_upt:
  "(\<And>i. Suc i < n \<Longrightarrow> Q i (Suc i)) \<Longrightarrow> successively Q [0..<n]"
proof (induction n)
  case 0
  then show ?case by simp
next
  case (Suc n)
  have ih: "successively Q [0..<n]" using Suc by simp
  show ?case
  proof (cases n)
    case 0
    then show ?thesis by simp
  next
    case (Suc m)
    have "Q m (Suc m)" using Suc.prems [of m] Suc by simp
    then show ?thesis using ih Suc by (simp add: successively_append_iff)
  qed
qed

lemma segmentCues_contiguous:
  "successively (\<lambda>c next. start next \<le> start c + duration c) (segmentCues seg t d)"
proof (cases "length seg > 25")
  case True
  let ?n = "length (splitByComma seg 25)"
  let ?sub = "d / of_nat ?n"
  have "successively (\<lambda>i j. t + of_nat j * ?sub \<le> t + of_nat i * ?sub + max 1 ?sub) [0..<?n]"
  proof (rule successively_upt)
    fix i assume "Suc i < ?n"
    have "t + of_nat (Suc i) * ?sub = t + of_nat i * ?sub + ?sub"
      by (simp only: of_nat_Suc distrib_right mult_1 ac_simps)
    also have "\<dots> \<le> t + of_nat i * ?sub + max 1 ?sub" by simp
    finally show "t + of_nat (Suc i) * ?sub \<le> t + of_nat i * ?sub + max 1 ?sub" .
  qed
  then show ?thesis using True by (simp add: segmentCues_def Let_def successively_map)
next
  case False
  then show ?thesis by (simp add: segmentCues_def)
qed

lemma segmentCues_last_end_ge:
  "t + d \<le> start (last (segmentCues seg t d)) + duration (last (segmentCues seg t d))"
proof (cases "length seg > 25")
  case True
  let ?n = "length (splitByComma seg 25)"
  have n: "0 < ?n" using splitByComma_nonempty [of seg 25] by simp
  have "(of_nat ?n - 1) * (d / of_nat ?n) + d / of_nat ?n = d"
    using n by (simp add: field_simps)
  moreover have "d / of_nat ?n \<le> max 1 (d / of_nat ?n)" by simp
  ultimately have "t + d \<le> t + (of_nat ?n - 1) * (d / of_nat ?n) + max 1 (d / of_nat ?n)"
    by linarith
  then show ?thesis unfolding segmentCues_last_end using True by simp
next
  case False
  then show ?thesis unfolding segmentCues_last_end by simp
qed

lemma timeSegments_contiguous:
  "successively (\<lambda>c next. start next \<le> start c + duration c) (timeSegments tot tc t segs)"
proof (induction segs arbitrary: t)
  case Nil
  then show ?case by simp
next
  case (Cons seg rest)
  define dur where "dur = (if rest = [] then max (3 / 2) (tot - t) else clampDuration tot tc seg)"
  have eq: "timeSegments tot tc t (seg # rest)
              = segmentCues seg t dur @ timeSegments tot tc (t + dur) rest"
    by (simp add: Let_def dur_def)
  have link: "timeSegments tot tc (t + dur) rest = [] \<or>
              start (hd (timeSegments tot tc (t + dur) rest))
                \<le> start (last (segmentCues seg t dur)) + duration (last (segmentCues seg t dur))"
  proof (cases "rest = []")
    case True
    then show ?thesis by simp
  next
    case False
    then have "start (hd (timeSegments tot tc (t + dur) rest)) = t + dur"
      by (rule timeSegments_hd)
    then show ?thesis using segmentCues_last_end_ge [of t dur seg] by simp
  qed
  show ?case unfolding eq successively_append_iff
    using segmentCues_contiguous [of seg t dur] Cons.IH [of "t + dur"] link by blast
qed

lemma timeSegments_last:
  "segs \<noteq> [] \<Longrightarrow>
   last (timeSegments tot tc t segs) =
   last (segmentCues (last segs) (t + sum_list (map (clampDuration tot tc) (butlast segs)))
          (max (3 / 2) (tot - (t + sum_list (map (clampDuration tot tc) (butlast segs))))))"
proof (induction segs arbitrary: t)
  case Nil
  then show ?case by simp
next
  case (Cons seg rest)
  show ?case
  proof (cases "rest = []")
    case True
    then show ?thesis by (simp add: Let_def)
  next
    case False
    then show ?thesis
      using Cons.IH [OF False, of "t + clampDuration tot tc seg"] timeSegments_nonempty [OF False]
      by (simp add: Let_def add.assoc)
  qed
qed

subsection \<open>Subtitle timer: segments are non-empty\<close>

lemma trim_eq_Nil_iff: "trim s = [] \<longleftrightarrow> (\<forall>c\<in>set s. isWhiteSpace c)"
proof -
  have "trim s = [] \<longleftrightarrow> (\<forall>c\<in>set (dropWhile isWhiteSpace s). isWhiteSpace c)"
    by (simp add: trim_def dropWhile_eq_Nil_conv)
  also have "\<dots> \<longleftrightarrow> dropWhile isWhiteSpace s = []"
  proof
    assume a: "\<forall>c\<in>set (dropWhile isWhiteSpace s). isWhiteSpace c"
    show "dropWhile isWhiteSpace s = []"
    proof (rule ccontr)
      assume ne: "dropWhile isWhiteSpace s \<noteq> []"
      then have "\<not> isWhiteSpace (hd (dropWhile isWhiteSpace s))" by (rule hd_dropWhile)
      moreover have "hd (dropWhile isWhiteSpace s) \<in> set (dropWhile isWhiteSpace s)"
        using ne by simp
      ultimately show False using a by blast
    qed
  qed (auto dest: set_dropWhileD)
  also have "\<dots> \<longleftrightarrow> (\<forall>c\<in>set s. isWhiteSpace c)"
    by (simp add: dropWhile_eq_Nil_conv)
  finally show ?thesis .
qed

lemma trim_append_nonempty: "trim p \<noteq> [] \<Longrightarrow> trim (cur @ p) \<noteq> []"
  by (auto simp: trim_eq_Nil_iff)

lemma mergeSentences_segments_nonempty:
  assumes "s \<in> set (mergeSentences parts cur)"
    and "\<forall>p\<in>set parts. trim p \<noteq> []" and "cur = [] \<or> trim cur \<noteq> []"
  shows "s \<noteq> []"
  using assms
proof (induction parts arbitrary: cur)
  case Nil
  then show ?case by (simp split: if_splits)
next
  case (Cons part rest)
  have rest: "\<forall>p\<in>set rest. trim p \<noteq> []" using Cons.prems(2) by simp
  have tp: "trim part \<noteq> []" using Cons.prems(2) by simp
  show ?case
  proof (cases "list_ex isSentenceEnd part")
    case sep: True
    show ?thesis
    proof (cases "cur = []")
      case True
      then have "s \<in> set (mergeSentences rest cur)" using Cons.prems(1) sep by simp
      then show ?thesis using rest True by (intro Cons.IH [of cur]) simp_all
    next
      case False
      then have tc: "trim cur \<noteq> []" using Cons.prems(3) by simp
      from Cons.prems(1) sep False
      have "s = trim cur @ (if part = [0x0A] then [] else part) \<or> s \<in> set (mergeSentences rest [])"
        by simp
      then show ?thesis
      proof
        assume "s = trim cur @ (if part = [0x0A] then [] else part)"
        then show ?thesis using tc by simp
      next
        assume "s \<in> set (mergeSentences rest [])"
        then show ?thesis using rest by (intro Cons.IH [of "[]"]) simp_all
      qed
    qed
  next
    case False
    then have "s \<in> set (mergeSentences rest (cur @ part))" using Cons.prems(1) by simp
    then show ?thesis
      using rest trim_append_nonempty [OF tp, of cur] by (intro Cons.IH [of "cur @ part"]) simp_all
  qed
qed

lemma sentenceSegments_nonempty_strings: "s \<in> set (sentenceSegments script) \<Longrightarrow> s \<noteq> []"
  unfolding sentenceSegments_def
  by (erule mergeSentences_segments_nonempty) simp_all

lemma generateSubtitlesFromScript_eq:
  assumes "0 < tot" "sentenceSegments script \<noteq> []"
  shows "generateSubtitlesFromScript script tot =
         timeSegments tot (sum_list (map length (sentenceSegments script))) 0
           (sentenceSegments script)"
proof -
  have "sentenceSegments [] = []" by (simp add: sentenceSegments_def trim_def)
  then have "script \<noteq> []" using assms(2) by auto
  then have 1: "\<not> (script = [] \<or> tot \<le> 0)" using assms(1) by simp
  have 2: "\<not> length (sentenceSegments script) = 0" using assms(2) by simp
  have 3: "\<not> sum_list (map length (sentenceSegments script)) = 0"
  proof -
    obtain s rest where sr: "sentenceSegments script = s # rest"
      using assms(2) by (cases "sentenceSegments script") auto
    then have "s \<noteq> []" using sentenceSegments_nonempty_strings [of s script] by simp
    then show ?thesis unfolding sr by simp
  qed
  show ?thesis unfolding generateSubtitlesFromScript_def Let_def
    by (simp only: 1 2 3 if_False)
qed

lemma last_end_arith:
  fixes x M :: rat
  assumes "1 \<le> M"
  shows "x \<le> (M - 1) * (max (3 / 2) x / M) + max 1 (max (3 / 2) x / M)
       \<and> ((M - 1) * (max (3 / 2) x / M) + max 1 (max (3 / 2) x / M) = x
            \<longleftrightarrow> 3 / 2 \<le> x \<and> M \<le> x)"
proof -
  define d where "d = max (3 / 2) x"
  have M: "0 < M" using assms by simp
  have e: "(M - 1) * (d / M) = d - d / M" using M by (simp add: field_simps)
  have dx: "x \<le> d" "3 / 2 \<le> d" by (simp_all add: d_def)
  show ?thesis
  proof (cases "1 \<le> d / M")
    case True
    then have Md: "M \<le> d" using M by (simp add: pos_le_divide_eq)
    have s: "(M - 1) * (d / M) + max 1 (d / M) = d" using True e by (simp add: max_def)
    have "d = x \<longleftrightarrow> 3 / 2 \<le> x \<and> M \<le> x" using Md by (auto simp: d_def max_def)
    then show ?thesis using s dx unfolding d_def [symmetric] by simp
  next
    case False
    then have Md: "d < M" using M by (simp add: pos_le_divide_eq)
    have s: "(M - 1) * (d / M) + max 1 (d / M) = d - d / M + 1" using False e by (simp add: max_def)
    have gt: "d < d - d / M + 1" using False by simp
    have "\<not> (3 / 2 \<le> x \<and> M \<le> x)" using Md by (auto simp: d_def max_def)
    then show ?thesis using s gt dx unfolding d_def [symmetric] by simp
  qed
qed

subsection \<open>Subtitle timer: coverage and clamp\<close>

text \<open>
C2 (amended): for every text and every total duration \<open>> 0\<close> for which the text
  has at least one sentence segment, the timer returns at least one cue, the first cue
  starts at 0, the start times are non-decreasing, every cue starts no later than the
  cue before it ends (no gap), and the final cue's start + duration is at least the total
  duration. It equals the total duration exactly when the time left
  for the last segment (the total duration minus \<open>used\<close>, the clamped durations of the
  earlier segments) is at least 1.5 seconds and at least \<open>n\<close> seconds, \<open>n\<close> being the
  number of sub-parts of the last segment when it is longer than 25 characters (1
  otherwise). In every other case the final cue ends after the total duration.
\<close>

theorem C2_subtitle_coverage:
  assumes "0 < totalDuration"
    and "sentenceSegments script = segs" and "segs \<noteq> []"
    and "generateSubtitlesFromScript script totalDuration = cues"
    and "sum_list (map (clampDuration totalDuration (sum_list (map length segs))) (butlast segs)) = used"
    and "(if length (last segs) > 25 then length (splitByComma (last segs) 25) else 1) = n"
  shows "cues \<noteq> [] \<and> start (hd cues) = 0 \<and> sorted (map start cues)
       \<and> successively (\<lambda>c next. start next \<le> start c + duration c) cues
       \<and> totalDuration \<le> start (last cues) + duration (last cues)
       \<and> (start (last cues) + duration (last cues) = totalDuration
            \<longleftrightarrow> 3 / 2 \<le> totalDuration - used \<and> of_nat n \<le> totalDuration - used)"
proof -
  let ?tc = "sum_list (map length segs)"
  have cues: "cues = timeSegments totalDuration ?tc 0 segs"
    using generateSubtitlesFromScript_eq [of totalDuration script] assms(1-4) by simp
  have ne: "cues \<noteq> []" unfolding cues by (rule timeSegments_nonempty [OF assms(3)])
  have h: "start (hd cues) = 0" unfolding cues by (rule timeSegments_hd [OF assms(3)])
  have so: "sorted (map start cues)" unfolding cues by (rule timeSegments_sorted)
  have ng: "successively (\<lambda>c next. start next \<le> start c + duration c) cues"
    unfolding cues by (rule timeSegments_contiguous)
  have l: "last cues = last (segmentCues (last segs) used (max (3 / 2) (totalDuration - used)))"
    unfolding cues using timeSegments_last [OF assms(3), of totalDuration ?tc 0] assms(5) by simp
  have n1: "1 \<le> (of_nat n :: rat)"
    using assms(6) splitByComma_nonempty [of "last segs" 25]
    by (auto split: if_splits simp: Suc_le_eq)
  define E where "E = (of_nat n - 1) * (max (3 / 2) (totalDuration - used) / of_nat n)
                   + max 1 (max (3 / 2) (totalDuration - used) / of_nat n)"
  have e: "start (last cues) + duration (last cues) = used + E"
  proof (cases "length (last segs) > 25")
    case True
    then have "n = length (splitByComma (last segs) 25)" using assms(6) by simp
    then show ?thesis unfolding l segmentCues_last_end E_def using True by simp
  next
    case False
    then have "n = 1" using assms(6) by simp
    then show ?thesis unfolding l segmentCues_last_end E_def using False by simp
  qed
  have ar: "totalDuration - used \<le> E
       \<and> (E = totalDuration - used \<longleftrightarrow> 3 / 2 \<le> totalDuration - used \<and> of_nat n \<le> totalDuration - used)"
    unfolding E_def by (rule last_end_arith [OF n1])
  have c1: "totalDuration \<le> start (last cues) + duration (last cues)"
    unfolding e using ar by linarith
  have "start (last cues) + duration (last cues) = totalDuration \<longleftrightarrow> E = totalDuration - used"
    unfolding e by linarith
  then have c2: "start (last cues) + duration (last cues) = totalDuration
            \<longleftrightarrow> 3 / 2 \<le> totalDuration - used \<and> of_nat n \<le> totalDuration - used"
    using ar by simp
  from c1 c2 ne h so ng show ?thesis by blast
qed

lemma segmentCues_short:
  "length seg \<le> 25 \<Longrightarrow> segmentCues seg t d = [\<lparr>cueText = seg, start = t, duration = d\<rparr>]"
  by (simp add: segmentCues_def)

lemma cueGroups_nth_bounds:
  assumes "i < length segs" "c \<in> set (cueGroups tot tc t segs ! i)"
  shows "1 \<le> duration c
       \<and> (i + 1 < length segs \<longrightarrow>
            duration c \<le> 8 \<and> (length (segs ! i) \<le> 25 \<longrightarrow> 3 / 2 \<le> duration c))"
  using assms
proof (induction segs arbitrary: t i)
  case Nil
  then show ?case by simp
next
  case (Cons seg rest)
  define dur where "dur = (if rest = [] then max (3 / 2) (tot - t) else clampDuration tot tc seg)"
  have g: "cueGroups tot tc t (seg # rest) = segmentCues seg t dur # cueGroups tot tc (t + dur) rest"
    by (simp add: Let_def dur_def)
  have d: "3 / 2 \<le> dur"
  proof (cases "rest = []")
    case True
    then have "dur = max (3 / 2) (tot - t)" by (simp add: dur_def)
    then show ?thesis by (simp only: max.cobounded1)
  next
    case False
    then show ?thesis using clampDuration_bounds [of tot tc seg] by (simp add: dur_def)
  qed
  show ?case
  proof (cases i)
    case 0
    then have c: "c \<in> set (segmentCues seg t dur)" using Cons.prems(2) g by simp
    have ge1: "1 \<le> duration c" by (rule segmentCues_duration_ge [OF d c])
    show ?thesis
    proof (cases "rest = []")
      case True
      then show ?thesis using ge1 0 by simp
    next
      case False
      then have dc: "dur = clampDuration tot tc seg" by (simp add: dur_def)
      have d8: "dur \<le> 8" "0 \<le> dur" using clampDuration_bounds [of tot tc seg] dc by simp_all
      have le8: "duration c \<le> 8" by (rule segmentCues_duration_le [OF d8(2) d8(1) c])
      have "length seg \<le> 25 \<longrightarrow> 3 / 2 \<le> duration c"
      proof
        assume "length seg \<le> 25"
        then have "duration c = dur" using c by (simp add: segmentCues_short)
        then show "3 / 2 \<le> duration c" using d by simp
      qed
      then show ?thesis using ge1 le8 0 by simp
    qed
  next
    case (Suc j)
    then have j: "j < length rest" using Cons.prems(1) by simp
    have c: "c \<in> set (cueGroups tot tc (t + dur) rest ! j)" using Cons.prems(2) g Suc by simp
    from Cons.IH [OF j c] show ?thesis using Suc by simp
  qed
qed

lemma cueGroups_nth_segmentCues:
  "i < length segs \<Longrightarrow> \<exists>t' d. cueGroups tot tc t segs ! i = segmentCues (segs ! i) t' d"
proof (induction segs arbitrary: t i)
  case Nil
  then show ?case by simp
next
  case (Cons seg rest)
  show ?case
  proof (cases i)
    case 0
    then show ?thesis by (auto simp: Let_def)
  next
    case (Suc j)
    then have "j < length rest" using Cons.prems by simp
    from Cons.IH [OF this] show ?thesis using Suc by (simp add: Let_def)
  qed
qed

text \<open>
C3 (amended): the cues returned are the concatenation of one group per sentence
  segment, each group being what \<open>segmentCues\<close> pushes for its segment. Every cue has
  duration at least 1. Every cue of a segment other than the last has duration at most
  8, and at least 1.5 when its segment has at most 25 characters (a longer segment is
  comma-split into \<open>n\<close> sub-parts, each lasting \<open>max 1 (d / n)\<close> for the segment's
  clamped duration \<open>d\<close>, which may fall below 1.5). The cues of the last segment,
  including those before the final cue when it is comma-split, have no upper bound.
\<close>

theorem C3_subtitle_clamp:
  assumes "0 < totalDuration" and "sentenceSegments script = segs" and "segs \<noteq> []"
  shows "\<exists>groups. generateSubtitlesFromScript script totalDuration = concat groups
           \<and> length groups = length segs
           \<and> (\<forall>i<length segs.
                 (\<exists>t d. groups ! i = segmentCues (segs ! i) t d)
                 \<and> (\<forall>c\<in>set (groups ! i).
                       1 \<le> duration c
                       \<and> (i + 1 < length segs \<longrightarrow>
                            duration c \<le> 8
                            \<and> (length (segs ! i) \<le> 25 \<longrightarrow> 3 / 2 \<le> duration c))))"
proof -
  let ?tc = "sum_list (map length segs)"
  let ?groups = "cueGroups totalDuration ?tc 0 segs"
  have "generateSubtitlesFromScript script totalDuration = concat ?groups"
    using generateSubtitlesFromScript_eq [of totalDuration script] assms
    by (simp add: concat_cueGroups)
  moreover have "length ?groups = length segs" by (rule length_cueGroups)
  moreover have "\<forall>i<length segs.
                 (\<exists>t d. ?groups ! i = segmentCues (segs ! i) t d)
                 \<and> (\<forall>c\<in>set (?groups ! i).
                       1 \<le> duration c
                       \<and> (i + 1 < length segs \<longrightarrow>
                            duration c \<le> 8
                            \<and> (length (segs ! i) \<le> 25 \<longrightarrow> 3 / 2 \<le> duration c)))"
    using cueGroups_nth_bounds cueGroups_nth_segmentCues by blast
  ultimately show ?thesis by blast
qed

text \<open>
C2 (as stated) fails: with two one-character sentences and a total duration of 2
  seconds each segment is raised to the 1.5 second floor, and the final cue ends at 3,
  not at 2. A text made of one full stop is non-empty and yields no cue at all.
\<close>

theorem C2_final_cue_overruns:
  "generateSubtitlesFromScript [0x61, 0x3002, 0x62, 0x3002] 2 =
     [\<lparr>cueText = [0x61, 0x3002], start = 0, duration = 3 / 2\<rparr>,
      \<lparr>cueText = [0x62, 0x3002], start = 3 / 2, duration = 3 / 2\<rparr>]
   \<and> start (last (generateSubtitlesFromScript [0x61, 0x3002, 0x62, 0x3002] 2))
       + duration (last (generateSubtitlesFromScript [0x61, 0x3002, 0x62, 0x3002] 2)) = 3
   \<and> generateSubtitlesFromScript [0x3002] 2 = []"
  by code_simp

lemma sentenceSegments_ab:
  "sentenceSegments [0x61, 0x3002, 0x62, 0x3002] = [[0x61, 0x3002], [0x62, 0x3002]]"
  by code_simp

text \<open>
C2 (amended) at two one-character sentences and a total duration of 10 seconds: the
  first segment gets 5 seconds, the last one the remaining 5, and the cues end at 10.
\<close>

theorem C2_subtitle_coverage_witness:
  "generateSubtitlesFromScript [0x61, 0x3002, 0x62, 0x3002] 10 \<noteq> []
   \<and> start (hd (generateSubtitlesFromScript [0x61, 0x3002, 0x62, 0x3002] 10)) = 0
   \<and> sorted (map start (generateSubtitlesFromScript [0x61, 0x3002, 0x62, 0x3002] 10))
   \<and> successively (\<lambda>c next. start next \<le> start c + duration c)
        (generateSubtitlesFromScript [0x61, 0x3002, 0x62, 0x3002] 10)
   \<and> start (last (generateSubtitlesFromScript [0x61, 0x3002, 0x62, 0x3002] 10))
       + duration (last (generateSubtitlesFromScript [0x61, 0x3002, 0x62, 0x3002] 10)) = 10"
proof -
  have u: "sum_list (map (clampDuration 10
                (sum_list (map length [[0x61, 0x3002], [0x62, 0x3002 :: jschar]])))
             (butlast [[0x61, 0x3002], [0x62, 0x3002]])) = 5"
    by (simp add: clampDuration_def)
  have n: "(if length (last [[0x61, 0x3002], [0x62, 0x3002 :: jschar]]) > 25
            then length (splitByComma (last [[0x61, 0x3002], [0x62, 0x3002]]) 25) else 1) = 1"
    by simp
  have "(0::rat) < 10" by simp
  from C2_subtitle_coverage [OF this sentenceSegments_ab _ refl u n]
  show ?thesis by simp
qed

text \<open>
C3 (as stated) fails in both directions. A 32-character first sentence with one comma,
  followed by a second sentence, with 2 seconds in total: the first sentence gets
  64/33 seconds, is split into two sub-parts, and each sub-cue lasts 1 second, below 1.5.
  A single 31-character sentence with one comma and 100 seconds in total: the sentence
  is the last segment, takes all 100 seconds, and its first sub-cue, which is not the
  final cue, lasts 50 seconds, above 8.
\<close>

theorem C3_cue_durations_outside_clamp:
  "length (generateSubtitlesFromScript
      (replicate 20 0x61 @ [0x2C] @ replicate 10 0x62 @ [0x3002, 0x63]) 2) = 3
   \<and> duration (generateSubtitlesFromScript
      (replicate 20 0x61 @ [0x2C] @ replicate 10 0x62 @ [0x3002, 0x63]) 2 ! 0) = 1
   \<and> length (generateSubtitlesFromScript
      (replicate 20 0x61 @ [0x2C] @ replicate 10 0x62) 100) = 2
   \<and> duration (generateSubtitlesFromScript
      (replicate 20 0x61 @ [0x2C] @ replicate 10 0x62) 100 ! 0) = 50"
  by code_simp

text \<open>
C3 (amended) at two one-character sentences and a total duration of 10 seconds.
\<close>

theorem C3_subtitle_clamp_witness:
  "\<exists>groups. generateSubtitlesFromScript [0x61, 0x3002, 0x62, 0x3002] 10 = concat groups
      \<and> length groups = 2
      \<and> (\<exists>t d. groups ! 0 = segmentCues [0x61, 0x3002] t d)
      \<and> list_all (\<lambda>c. 3 / 2 \<le> duration c \<and> duration c \<le> 8) (groups ! 0)
      \<and> list_all (\<lambda>c. 1 \<le> duration c) (groups ! 1)"
proof -
  let ?segs = "[[0x61, 0x3002], [0x62, 0x3002 :: jschar]]"
  have pos: "(0::rat) < 10" by simp
  have ne: "?segs \<noteq> []" by simp
  from C3_subtitle_clamp [OF pos sentenceSegments_ab ne]
  obtain groups where g1:
    "generateSubtitlesFromScript [0x61, 0x3002, 0x62, 0x3002] 10 = concat groups"
    and g2: "length groups = length ?segs"
    and g3: "\<And>i. i < length ?segs \<Longrightarrow>
        (\<exists>t d. groups ! i = segmentCues (?segs ! i) t d)
        \<and> (\<forall>c\<in>set (groups ! i). 1 \<le> duration c
              \<and> (i + 1 < length ?segs \<longrightarrow> duration c \<le> 8
                   \<and> (length (?segs ! i) \<le> 25 \<longrightarrow> 3 / 2 \<le> duration c)))"
    by blast
  have "(\<exists>t d. groups ! 0 = segmentCues [0x61, 0x3002] t d)
        \<and> (\<forall>c\<in>set (groups ! 0). 3 / 2 \<le> duration c \<and> duration c \<le> 8)"
    using g3 [of 0] by simp
  moreover have "\<forall>c\<in>set (groups ! 1). 1 \<le> duration c"
    using g3 [of 1] by simp
  ultimately show ?thesis using g1 g2 by (intro exI [of _ groups]) (simp add: list_all_iff)
qed

subsection \<open>Video assembly and view-model subtitles\<close>

lemma scaleSubtitles_durations:
  "map duration (scaleSubtitles k t s subs) = map (\<lambda>sub. durationOr2 sub * k) subs"
  by (induction subs arbitrary: s) (simp_all add: Let_def)

lemma foldl_durationOr2: "foldl (\<lambda>sum sub. sum + durationOr2 sub) a subs = a + sum_list (map durationOr2 subs)"
  by (induction subs arbitrary: a) simp_all

lemma sum_list_scaled: "sum_list (map (\<lambda>sub. durationOr2 sub * k) subs) = sum_list (map durationOr2 subs) * k"
  by (induction subs) (simp_all add: algebra_simps)

lemma durationOr2_zero_or_missing:
  "subDuration sub = None \<or> subDuration sub = Some 0 \<Longrightarrow> durationOr2 sub = 2"
  by (auto simp: durationOr2_def)

lemma sum_list_all2: "list_all (\<lambda>sub. subDuration sub = None \<or> subDuration sub = Some 0) subs \<Longrightarrow>
   sum_list (map durationOr2 subs) = 2 * of_nat (length subs)"
  by (induction subs) (simp_all add: durationOr2_zero_or_missing algebra_simps)

text \<open>
  C8 (amended): during video assembly, for every slide with no script text and a
  non-empty author-provided subtitles list, each cue's effective duration (its duration,
  or 2 when that is zero or missing) is multiplied by one factor: the clip's duration
  divided by the sum of the effective durations when that sum is positive, and then the
  scaled durations sum to the clip's duration; and 1 when the sum is not positive. A list
  whose durations are all zero or missing has the positive effective total \<open>2 * n\<close>, so
  each of its \<open>n\<close> cues gets the clip's duration divided by \<open>n\<close>: the factor is not 1.
\<close>

theorem C8_rescale:
  assumes "slideScript slide = []" and "slideSubtitles slide = Some subs" and "subs \<noteq> []"
    and "sum_list (map durationOr2 subs) = totalSub"
    and "slideSubtitleCues slide resultDuration currentTime = cues"
  shows "map duration cues =
           map (\<lambda>sub. durationOr2 sub * (if totalSub > 0 then resultDuration / totalSub else 1)) subs
       \<and> (totalSub > 0 \<longrightarrow> sum_list (map duration cues) = resultDuration)
       \<and> (totalSub \<le> 0 \<longrightarrow> map duration cues = map durationOr2 subs)
       \<and> (list_all (\<lambda>sub. subDuration sub = None \<or> subDuration sub = Some 0) subs \<longrightarrow>
            totalSub = 2 * of_nat (length subs)
            \<and> map duration cues = map (\<lambda>sub. resultDuration / of_nat (length subs)) subs)"
proof -
  have ts: "timeScaleOf subs resultDuration = (if totalSub > 0 then resultDuration / totalSub else 1)"
    using assms(4) by (simp add: timeScaleOf_def foldl_durationOr2)
  have cues: "cues = scaleSubtitles (timeScaleOf subs resultDuration) currentTime 0 subs"
    using assms(1,2,3,5) by (simp add: slideSubtitleCues_def)
  have d: "map duration cues =
           map (\<lambda>sub. durationOr2 sub * (if totalSub > 0 then resultDuration / totalSub else 1)) subs"
    unfolding cues scaleSubtitles_durations ts ..
  have s: "totalSub > 0 \<longrightarrow> sum_list (map duration cues) = resultDuration"
    unfolding d sum_list_scaled assms(4) by simp
  have z: "totalSub \<le> 0 \<longrightarrow> map duration cues = map durationOr2 subs"
    unfolding d by simp
  have a: "list_all (\<lambda>sub. subDuration sub = None \<or> subDuration sub = Some 0) subs \<longrightarrow>
            totalSub = 2 * of_nat (length subs)
            \<and> map duration cues = map (\<lambda>sub. resultDuration / of_nat (length subs)) subs"
  proof
    assume all: "list_all (\<lambda>sub. subDuration sub = None \<or> subDuration sub = Some 0) subs"
    have t: "totalSub = 2 * of_nat (length subs)" using sum_list_all2 [OF all] assms(4) by simp
    have pos: "totalSub > 0" using t assms(3) by simp
    have "\<forall>sub\<in>set subs. durationOr2 sub = 2"
      using all by (auto simp: list_all_iff durationOr2_zero_or_missing)
    then have "map duration cues = map (\<lambda>sub. resultDuration / of_nat (length subs)) subs"
      unfolding d using pos t by simp
    then show "totalSub = 2 * of_nat (length subs)
            \<and> map duration cues = map (\<lambda>sub. resultDuration / of_nat (length subs)) subs"
      using t by simp
  qed
  from d s z a show ?thesis by blast
qed

text \<open>
  C8 (as stated) fails. A slide whose two author cues have a zero and a missing duration,
  with a 10 second clip: the factor is 10 / 4, not 1, and each cue lasts 5 seconds. A
  slide whose only author cue has duration -1: the effective total is not positive, the
  factor is 1, and the scaled durations sum to -1, not to the clip's 10 seconds.
\<close>

theorem C8_zero_durations_not_factor_1:
  "timeScaleOf (the (slideSubtitles slide_zeroDurations)) 10 = 5 / 2
   \<and> slideSubtitleCues slide_zeroDurations 10 0 =
       [\<lparr>cueText = [0x61], start = 0, duration = 5\<rparr>,
        \<lparr>cueText = [0x62], start = 5, duration = 5\<rparr>]
   \<and> timeScaleOf (the (slideSubtitles slide_negativeDuration)) 10 = 1
   \<and> slideSubtitleCues slide_negativeDuration 10 0 =
       [\<lparr>cueText = [0x61], start = 0, duration = - 1\<rparr>]"
  by (simp add: slide_zeroDurations_def slide_negativeDuration_def slideSubtitleCues_def
      timeScaleOf_def durationOr2_def Let_def)

text \<open>
  C8 (amended) at author cues of 1 and 3 seconds and an 8 second clip.
\<close>

theorem C8_rescale_witness:
  "map duration (slideSubtitleCues slide_authorCues 8 0) = [2, 6]
   \<and> sum_list (map duration (slideSubtitleCues slide_authorCues 8 0)) = 8"
proof -
  let ?subs = "[\<lparr>subText = [0x61], subStart = Some 0, subDuration = Some 1\<rparr>,
                \<lparr>subText = [0x62], subStart = Some 1, subDuration = Some 3\<rparr>]"
  have a: "slideScript slide_authorCues = []" by (simp add: slide_authorCues_def)
  have b: "slideSubtitles slide_authorCues = Some ?subs" by (simp add: slide_authorCues_def)
  have c: "?subs \<noteq> []" by simp
  have d: "sum_list (map durationOr2 ?subs) = 4" by (simp add: durationOr2_def)
  note th = C8_rescale [OF a b c d refl, of 8 0]
  have m: "map duration (slideSubtitleCues slide_authorCues 8 0) =
           map (\<lambda>sub. durationOr2 sub * (if (4::rat) > 0 then 8 / 4 else 1)) ?subs"
    by (rule th [THEN conjunct1])
  have s: "(4::rat) > 0 \<longrightarrow> sum_list (map duration (slideSubtitleCues slide_authorCues 8 0)) = 8"
    by (rule th [THEN conjunct2, THEN conjunct1])
  have "map duration (slideSubtitleCues slide_authorCues 8 0) = [2, 6]"
    unfolding m by (simp add: durationOr2_def)
  moreover have "sum_list (map duration (slideSubtitleCues slide_authorCues 8 0)) = 8"
    using s by simp
  ultimately show ?thesis by (rule conjI)
qed

lemma view_keeps_author:
  "slideSubtitles slide = Some subs \<Longrightarrow> subs \<noteq> [] \<Longrightarrow>
   viewSubtitles (slideViewModel slide i audioDuration) = AuthorSubtitles subs"
  by (simp add: slideViewModel_def)

lemma view_timed_only_if:
  assumes "viewSubtitles (slideViewModel slide i audioDuration) = TimedSubtitles cs"
  shows "(slideSubtitles slide = None \<or> slideSubtitles slide = Some [])
         \<and> slideScript slide \<noteq> []
         \<and> (\<exists>ms. audioDuration = Some ms \<and> ms \<noteq> 0
               \<and> cs = generateSubtitlesFromScript (slideScript slide) (ms / 1000))"
proof (cases "(slideSubtitles slide = None \<or> length (the (slideSubtitles slide)) = 0)
            \<and> slideScript slide \<noteq> []
            \<and> audioDuration \<noteq> None \<and> audioDuration \<noteq> Some 0")
  case True
  then obtain ms where ms: "audioDuration = Some ms" "ms \<noteq> 0" by auto
  have "cs = generateSubtitlesFromScript (slideScript slide) (ms / 1000)"
    using assms True ms by (simp add: slideViewModel_def)
  moreover have "slideSubtitles slide = None \<or> slideSubtitles slide = Some []"
    using True by (cases "slideSubtitles slide") simp_all
  ultimately show ?thesis using True ms by simp
next
  case False
  then have "viewSubtitles (slideViewModel slide i audioDuration) =
        (case slideSubtitles slide of None \<Rightarrow> Undefined | Some subs \<Rightarrow> AuthorSubtitles subs)"
    unfolding slideViewModel_def by (simp only: slideView.simps if_not_P if_False)
  then show ?thesis using assms by (simp split: option.splits)
qed

lemma view_timed_if:
  assumes "slideSubtitles slide = None \<or> slideSubtitles slide = Some []"
    and "slideScript slide \<noteq> []" and "audioDuration = Some ms" and "ms \<noteq> 0"
  shows "viewSubtitles (slideViewModel slide i audioDuration) =
           TimedSubtitles (generateSubtitlesFromScript (slideScript slide) (ms / 1000))"
  using assms by (auto simp: slideViewModel_def)

lemma video_prefers_script:
  "slideScript slide \<noteq> [] \<Longrightarrow>
   slideSubtitleCues slide resultDuration currentTime =
     map (\<lambda>sub. \<lparr>cueText = cueText sub, start = currentTime + start sub,
                   duration = duration sub\<rparr>)
       (generateSubtitlesFromScript (slideScript slide) resultDuration)"
  by (simp add: slideSubtitleCues_def)

text \<open>
  C10: in the slide view-model a non-empty author-provided list is kept unchanged; the
  field holds timer-derived cues only when the author list is absent or empty (and then
  from the script and the realized audio duration in seconds, provided the script is
  non-empty and the duration truthy). In the video, a non-empty script always wins: the
  cues are the timer's, shifted by \<open>currentTime\<close>, whatever the author list holds.
\<close>

theorem C10_view_subtitles_priority:
  "(\<forall>subs. slideSubtitles slide = Some subs \<and> subs \<noteq> [] \<longrightarrow>
       viewSubtitles (slideViewModel slide i audioDuration) = AuthorSubtitles subs)
   \<and> (\<forall>cs. viewSubtitles (slideViewModel slide i audioDuration) = TimedSubtitles cs \<longrightarrow>
         (slideSubtitles slide = None \<or> slideSubtitles slide = Some [])
         \<and> slideScript slide \<noteq> []
         \<and> (\<exists>ms. audioDuration = Some ms \<and> ms \<noteq> 0
               \<and> cs = generateSubtitlesFromScript (slideScript slide) (ms / 1000)))
   \<and> ((slideSubtitles slide = None \<or> slideSubtitles slide = Some [])
        \<and> slideScript slide \<noteq> [] \<and> audioDuration = Some ms \<and> ms \<noteq> 0 \<longrightarrow>
         viewSubtitles (slideViewModel slide i audioDuration) =
           TimedSubtitles (generateSubtitlesFromScript (slideScript slide) (ms / 1000)))
   \<and> (slideScript slide \<noteq> [] \<longrightarrow>
         slideSubtitleCues slide resultDuration currentTime =
           map (\<lambda>sub. \<lparr>cueText = cueText sub, start = currentTime + start sub,
                         duration = duration sub\<rparr>)
             (generateSubtitlesFromScript (slideScript slide) resultDuration))"
proof -
  have 1: "\<forall>subs. slideSubtitles slide = Some subs \<and> subs \<noteq> [] \<longrightarrow>
       viewSubtitles (slideViewModel slide i audioDuration) = AuthorSubtitles subs"
    using view_keeps_author by blast
  have 2: "\<forall>cs. viewSubtitles (slideViewModel slide i audioDuration) = TimedSubtitles cs \<longrightarrow>
         (slideSubtitles slide = None \<or> slideSubtitles slide = Some [])
         \<and> slideScript slide \<noteq> []
         \<and> (\<exists>ms. audioDuration = Some ms \<and> ms \<noteq> 0
               \<and> cs = generateSubtitlesFromScript (slideScript slide) (ms / 1000))"
    using view_timed_only_if by blast
  have 3: "(slideSubtitles slide = None \<or> slideSubtitles slide = Some [])
        \<and> slideScript slide \<noteq> [] \<and> audioDuration = Some ms \<and> ms \<noteq> 0 \<longrightarrow>
         viewSubtitles (slideViewModel slide i audioDuration) =
           TimedSubtitles (generateSubtitlesFromScript (slideScript slide) (ms / 1000))"
    using view_timed_if by blast
  have 4: "slideScript slide \<noteq> [] \<longrightarrow>
         slideSubtitleCues slide resultDuration currentTime =
           map (\<lambda>sub. \<lparr>cueText = cueText sub, start = currentTime + start sub,
                         duration = duration sub\<rparr>)
             (generateSubtitlesFromScript (slideScript slide) resultDuration)"
    using video_prefers_script by blast
  from 1 2 3 4 show ?thesis by (intro conjI)
qed

text \<open>
  C10 at a slide that has both a script and one author cue: the view-model keeps the
  author cue while the video takes the script-derived cues.
\<close>

theorem C10_view_subtitles_priority_witness:
  "viewSubtitles (slideViewModel slide_scriptAndCues 0 (Some 3000)) =
     AuthorSubtitles [\<lparr>subText = [0x78], subStart = Some 0, subDuration = Some 1\<rparr>]
   \<and> slideSubtitleCues slide_scriptAndCues 3 0 =
     map (\<lambda>sub. \<lparr>cueText = cueText sub, start = 0 + start sub, duration = duration sub\<rparr>)
       (generateSubtitlesFromScript [0x61, 0x3002] 3)"
proof -
  note th = C10_view_subtitles_priority [of slide_scriptAndCues 0 "Some 3000" 3000 3 0]
  have s: "slideSubtitles slide_scriptAndCues =
        Some [\<lparr>subText = [0x78], subStart = Some 0, subDuration = Some 1\<rparr>]"
    by (simp add: slide_scriptAndCues_def)
  have sc: "slideScript slide_scriptAndCues = [0x61, 0x3002]"
    by (simp add: slide_scriptAndCues_def)
  have "viewSubtitles (slideViewModel slide_scriptAndCues 0 (Some 3000)) =
     AuthorSubtitles [\<lparr>subText = [0x78], subStart = Some 0, subDuration = Some 1\<rparr>]"
    using th [THEN conjunct1] s by simp
  moreover have "slideSubtitleCues slide_scriptAndCues 3 0 =
     map (\<lambda>sub. \<lparr>cueText = cueText sub, start = 0 + start sub, duration = duration sub\<rparr>)
       (generateSubtitlesFromScript [0x61, 0x3002] 3)"
    using th [THEN conjunct2, THEN conjunct2, THEN conjunct2] sc by simp
  ultimately show ?thesis by (rule conjI)
qed

subsection \<open>Marker orchestrator: isolation of failures\<close>

lemma callProgress_quiet:
  assumes "\<forall>callback. onProgress = Some callback \<longrightarrow>
             (\<forall>progress message s. fst (callback progress message s) = None)"
  shows "\<exists>s'. callProgress onProgress progress message s = (None, s')"
proof (cases onProgress)
  case None
  then show ?thesis by (simp add: callProgress_def)
next
  case (Some callback)
  then have "fst (callback progress message s) = None" using assms by blast
  then have "callProgress onProgress progress message s
               = (None, snd (callback progress message s))"
    using Some by (simp add: callProgress_def prod_eq_iff)
  then show ?thesis by blast
qed

lemma callTaskUpdate_quiet:
  assumes "\<forall>callback. onTaskUpdate = Some callback \<longrightarrow>
             (\<forall>i data s. fst (callback i data s) = None)"
  shows "\<exists>s'. callTaskUpdate onTaskUpdate i data s = (None, s')"
proof (cases onTaskUpdate)
  case None
  then show ?thesis by (simp add: callTaskUpdate_def)
next
  case (Some callback)
  then have "fst (callback i data s) = None" using assms by blast
  then have "callTaskUpdate onTaskUpdate i data s = (None, snd (callback i data s))"
    using Some by (simp add: callTaskUpdate_def prod_eq_iff)
  then show ?thesis by blast
qed

lemma markerRound_quiet:
  assumes "\<forall>callback. onProgress = Some callback \<longrightarrow>
             (\<forall>progress message s. fst (callback progress message s) = None)"
    and "\<forall>callback. onTaskUpdate = Some callback \<longrightarrow>
             (\<forall>i data s. fst (callback i data s) = None)"
  shows "\<exists>si s'. markerRound ptm onProgress onTaskUpdate p totalCount i t results s =
           (None,
            results @ [case fst (ptm p t
                                  (markerProgress onProgress
                                     (jsRound (of_nat i / of_nat totalCount * 100)) totalCount)
                                  (markerUpdate onTaskUpdate i) si) of
                         Inr result \<Rightarrow> Succeeded t result
                       | Inl (Error message) \<Rightarrow> FailedMarker t message],
            s')"
proof -
  define base where "base = jsRound (of_nat i / of_nat totalCount * 100)"
  from callTaskUpdate_quiet [OF assms(2)] obtain s1 where
    1: "callTaskUpdate onTaskUpdate i (TaskStart t) s = (None, s1)" by blast
  from callProgress_quiet [OF assms(1)] obtain s2 where
    2: "callProgress onProgress base (markerMessage i totalCount) s1 = (None, s2)" by blast
  obtain outcome s3 where
    3: "ptm p t (markerProgress onProgress base totalCount) (markerUpdate onTaskUpdate i) s2
          = (outcome, s3)"
    by (cases "ptm p t (markerProgress onProgress base totalCount) (markerUpdate onTaskUpdate i) s2")
  have f: "fst (ptm p t (markerProgress onProgress base totalCount) (markerUpdate onTaskUpdate i) s2)
             = outcome"
    by (simp add: 3)
  show ?thesis
  proof (cases outcome)
    case (Inr result)
    from callTaskUpdate_quiet [OF assms(2)] obtain s4 where
      4: "callTaskUpdate onTaskUpdate i (TaskCompleted (Succeeded t result)) s3 = (None, s4)"
      by blast
    have "markerRound ptm onProgress onTaskUpdate p totalCount i t results s =
            (None, results @ [Succeeded t result], s4)"
      unfolding markerRound_def base_def [symmetric] by (simp add: Let_def 1 2 3 4 Inr)
    then show ?thesis unfolding base_def [symmetric] using f Inr by (metis sum.simps(6))
  next
    case (Inl err)
    obtain message where e: "err = Error message" by (cases err)
    from callTaskUpdate_quiet [OF assms(2)] obtain s5 where
      5: "callTaskUpdate onTaskUpdate i (TaskFailed (FailedMarker t message)) s3 = (None, s5)"
      by blast
    have "markerRound ptm onProgress onTaskUpdate p totalCount i t results s =
            (None, results @ [FailedMarker t message], s5)"
      unfolding markerRound_def base_def [symmetric] by (simp add: Let_def 1 2 3 5 Inl e)
    then show ?thesis unfolding base_def [symmetric] using f Inl e
      by (metis sum.simps(5) error.simps(2))
  qed
qed


lemma markersLoop_quiet:
  assumes "\<forall>callback. onProgress = Some callback \<longrightarrow>
             (\<forall>progress message s. fst (callback progress message s) = None)"
    and "\<forall>callback. onTaskUpdate = Some callback \<longrightarrow>
             (\<forall>i data s. fst (callback i data s) = None)"
  shows "\<exists>new s'. markersLoop ptm onProgress onTaskUpdate p totalCount i ts results s
                     = (Inr (results @ new), s')
           \<and> length new = length ts
           \<and> (\<forall>k<length ts. \<exists>sk. new ! k =
                 (case fst (ptm p (ts ! k)
                              (markerProgress onProgress
                                 (jsRound (of_nat (i + k) / of_nat totalCount * 100)) totalCount)
                              (markerUpdate onTaskUpdate (i + k)) sk) of
                    Inr result \<Rightarrow> Succeeded (ts ! k) result
                  | Inl (Error message) \<Rightarrow> FailedMarker (ts ! k) message))"
proof (induction ts arbitrary: i results s)
  case Nil
  have "markersLoop ptm onProgress onTaskUpdate p totalCount i [] results s
          = (Inr (results @ []), s)"
    by simp
  then show ?case by (intro exI [of _ "[]"] exI [of _ s]) simp
next
  case (Cons t ts)
  let ?entry = "\<lambda>j u sj. case fst (ptm p u
                              (markerProgress onProgress
                                 (jsRound (of_nat j / of_nat totalCount * 100)) totalCount)
                              (markerUpdate onTaskUpdate j) sj) of
                    Inr result \<Rightarrow> Succeeded u result
                  | Inl (Error message) \<Rightarrow> FailedMarker u message"
  from markerRound_quiet [OF assms, of ptm p totalCount i t results s] obtain si s1 where
    r: "markerRound ptm onProgress onTaskUpdate p totalCount i t results s
          = (None, results @ [?entry i t si], s1)"
    by blast
  from Cons.IH [of "i + 1" "results @ [?entry i t si]" s1] obtain new s' where
    l: "markersLoop ptm onProgress onTaskUpdate p totalCount (i + 1) ts
          (results @ [?entry i t si]) s1 = (Inr ((results @ [?entry i t si]) @ new), s')"
    and n: "length new = length ts"
    and e: "\<forall>k<length ts. \<exists>sk. new ! k = ?entry (i + 1 + k) (ts ! k) sk"
    by blast
  have 1: "markersLoop ptm onProgress onTaskUpdate p totalCount i (t # ts) results s
             = (Inr (results @ (?entry i t si # new)), s')"
    using r l by simp
  have 2: "length (?entry i t si # new) = length (t # ts)" using n by simp
  have 3: "\<forall>k<length (t # ts). \<exists>sk. (?entry i t si # new) ! k = ?entry (i + k) ((t # ts) ! k) sk"
  proof (intro allI impI)
    fix k assume k: "k < length (t # ts)"
    show "\<exists>sk. (?entry i t si # new) ! k = ?entry (i + k) ((t # ts) ! k) sk"
    proof (cases k)
      case 0
      show ?thesis unfolding 0 by (intro exI [of _ si]) (simp only: nth_Cons_0 add_0_right)
    next
      case (Suc j)
      then have "j < length ts" using k by simp
      with e obtain sk where "new ! j = ?entry (i + 1 + j) (ts ! j) sk" by blast
      moreover have "i + 1 + j = i + Suc j" by simp
      ultimately have "(?entry i t si # new) ! Suc j = ?entry (i + Suc j) ((t # ts) ! Suc j) sk"
        by (simp only: nth_Cons_Suc)
      then show ?thesis unfolding Suc by blast
    qed
  qed
  show ?case using 1 2 3 by blast
qed

text \<open>
  C1 (amended): for every audio path, every list of marker times and every behaviour of
  \<open>processTimeMarker\<close>, provided neither callback throws (each of them may be absent),
  \<open>processMultipleMarkers\<close> resolves with exactly one entry per marker, in marker order:
  the entry at position \<open>i\<close> is the failure placeholder with the thrown error's message
  when processing marker \<open>i\<close> throws, and that marker's result otherwise, whatever
  happens to the other markers. Marker \<open>i\<close> is processed with the callbacks of position
  \<open>i\<close>, in the state \<open>si\<close> the callbacks have reached by then.
\<close>

theorem C1_marker_isolation:
  assumes "\<forall>callback. onProgress = Some callback \<longrightarrow>
             (\<forall>progress message s. fst (callback progress message s) = None)"
    and "\<forall>callback. onTaskUpdate = Some callback \<longrightarrow>
             (\<forall>i data s. fst (callback i data s) = None)"
  shows "\<exists>results s'.
      processMultipleMarkers processTimeMarker audioFilePath markerTimes onProgress onTaskUpdate s
        = (Inr results, s')
      \<and> length results = length markerTimes
      \<and> (\<forall>i<length markerTimes. \<exists>si.
            results ! i =
              (case fst (processTimeMarker audioFilePath (markerTimes ! i)
                           (markerProgress onProgress
                              (jsRound (of_nat i / of_nat (length markerTimes) * 100))
                              (length markerTimes))
                           (markerUpdate onTaskUpdate i) si) of
                 Inr result \<Rightarrow> Succeeded (markerTimes ! i) result
               | Inl (Error message) \<Rightarrow> FailedMarker (markerTimes ! i) message))"
proof -
  from markersLoop_quiet [OF assms, of processTimeMarker audioFilePath "length markerTimes" 0
         markerTimes "[]" s]
  obtain new s1 where
    l: "markersLoop processTimeMarker onProgress onTaskUpdate audioFilePath (length markerTimes) 0
          markerTimes [] s = (Inr ([] @ new), s1)"
    and n: "length new = length markerTimes"
    and e: "\<forall>k<length markerTimes. \<exists>sk. new ! k =
                 (case fst (processTimeMarker audioFilePath (markerTimes ! k)
                              (markerProgress onProgress
                                 (jsRound (of_nat (0 + k) / of_nat (length markerTimes) * 100))
                                 (length markerTimes))
                              (markerUpdate onTaskUpdate (0 + k)) sk) of
                    Inr result \<Rightarrow> Succeeded (markerTimes ! k) result
                  | Inl (Error message) \<Rightarrow> FailedMarker (markerTimes ! k) message)"
    by blast
  from callProgress_quiet [OF assms(1)] obtain s2 where
    p: "callProgress onProgress (jsRound 100) allMarkersDone s1 = (None, s2)" by blast
  have "processMultipleMarkers processTimeMarker audioFilePath markerTimes onProgress onTaskUpdate s
          = (Inr new, s2)"
    using l p by (simp add: processMultipleMarkers_def Let_def)
  moreover note n
  moreover have "\<forall>i<length markerTimes. \<exists>si.
            new ! i =
              (case fst (processTimeMarker audioFilePath (markerTimes ! i)
                           (markerProgress onProgress
                              (jsRound (of_nat i / of_nat (length markerTimes) * 100))
                              (length markerTimes))
                           (markerUpdate onTaskUpdate i) si) of
                 Inr result \<Rightarrow> Succeeded (markerTimes ! i) result
               | Inl (Error message) \<Rightarrow> FailedMarker (markerTimes ! i) message)"
    using e by simp
  ultimately show ?thesis by blast
qed

text \<open>
  C1 (as stated) fails when a callback throws. With an \<open>onTaskUpdate\<close> that throws at
  the \<open>completed\<close> step, the \<open>catch\<close> pushes a failure placeholder after the result
  already pushed: two markers give four entries. With an \<open>onProgress\<close> that throws, the
  call before the \<open>try\<close> rejects the promise.
\<close>

theorem C1_throwing_callback:
  "processMultipleMarkers marker200_throws 0 [100, 300] None (Some throwOnCompleted) []
     = (Inr [Succeeded 100 7, FailedMarker 100 [0x62, 0x6F, 0x6F, 0x6D],
             Succeeded 300 7, FailedMarker 300 [0x62, 0x6F, 0x6F, 0x6D]], [])
   \<and> processMultipleMarkers marker200_throws 0 [100] (Some throwingProgress) None []
       = (Inl (Error [0x62, 0x6F, 0x6F, 0x6D]), [])"
  by code_simp

text \<open>
  C1 (amended) at the markers 100, 200, 300 where processing the marker at 200 throws,
  with a progress callback that records the values it is given and no update callback.
\<close>

theorem C1_marker_isolation_witness:
  "\<exists>results s'.
      processMultipleMarkers marker200_throws 0 [100, 200, 300] (Some recordProgress) None []
        = (Inr results, s')
      \<and> results = [Succeeded 100 7, FailedMarker 200 [0x66, 0x61, 0x69, 0x6C], Succeeded 300 7]
      \<and> s' = [0, 33, 67, 100]
      \<and> length results = length [100, 200, 300 :: rat]"
proof -
  have ev: "processMultipleMarkers marker200_throws 0 [100, 200, 300] (Some recordProgress) None []
              = (Inr [Succeeded 100 7, FailedMarker 200 [0x66, 0x61, 0x69, 0x6C], Succeeded 300 7],
                 [0, 33, 67, 100])"
    by code_simp
  have q1: "\<forall>callback. Some recordProgress = Some callback \<longrightarrow>
             (\<forall>progress message s. fst (callback progress message s) = None)"
    by (simp add: recordProgress_def)
  have q2: "\<forall>callback. (None :: (nat \<Rightarrow> (nat, unit) taskUpdate \<Rightarrow> int list effect) option)
                = Some callback \<longrightarrow> (\<forall>i data s. fst (callback i data s) = None)"
    by simp
  from C1_marker_isolation [OF q1 q2, of marker200_throws 0 "[100, 200, 300]" "[]"]
  obtain results s' where
    p: "processMultipleMarkers marker200_throws 0 [100, 200, 300] (Some recordProgress) None []
          = (Inr results, s')"
    and l: "length results = length [100, 200, 300 :: rat]"
    by blast
  from p ev have "results = [Succeeded 100 7, FailedMarker 200 [0x66, 0x61, 0x69, 0x6C], Succeeded 300 7]"
    and "s' = [0, 33, 67, 100]"
    by simp_all
  then show ?thesis using p l by blast
qed
subsection \<open>Transcriber: chunk order\<close>

lemma segmentCatch_quiet:
  assumes "\<forall>callback. onProgress = Some callback \<longrightarrow>
             (\<forall>progress message s. fst (callback progress message s) = None)"
  shows "\<exists>w'. segmentCatch onProgress segmentCount task w
                = (Inr (segmentOutcome task (Inl err)), w')"
proof -
  define c where "c = fst w + 1"
  from callProgress_quiet [OF assms] obtain s1 where
    "callProgress onProgress (jsRound (of_nat c / of_int segmentCount * 80))
       (segmentMessage c segmentCount) (snd w) = (None, s1)"
    by blast
  then have "segmentCatch onProgress segmentCount task w
               = (Inr (segmentOutcome task (Inl err)), (c, s1))"
    unfolding segmentCatch_def c_def [symmetric] by (simp add: Let_def segmentOutcome_def)
  then show ?thesis by blast
qed

lemma processSegment_quiet:
  assumes "\<forall>callback. onProgress = Some callback \<longrightarrow>
             (\<forall>progress message s. fst (callback progress message s) = None)"
    and "cleanup task = None"
  shows "\<exists>w'. processSegment onProgress cleanup segmentCount task outcome w
                = (Inr (segmentOutcome task outcome), w')"
proof (cases outcome)
  case (Inl err)
  from segmentCatch_quiet [OF assms(1), of segmentCount task w err] obtain w' where
    "segmentCatch onProgress segmentCount task w = (Inr (segmentOutcome task (Inl err)), w')"
    by blast
  then have "processSegment onProgress cleanup segmentCount task outcome w
               = (Inr (segmentOutcome task outcome), w')"
    by (simp add: processSegment_def Inl assms(2))
  then show ?thesis by blast
next
  case (Inr recognised)
  define c where "c = fst w + 1"
  from callProgress_quiet [OF assms(1)] obtain s1 where
    "callProgress onProgress (jsRound (of_nat c / of_int segmentCount * 80))
       (segmentMessage c segmentCount) (snd w) = (None, s1)"
    by blast
  then have "processSegment onProgress cleanup segmentCount task outcome w
               = (Inr (segmentOutcome task outcome), (c, s1))"
    unfolding processSegment_def c_def [symmetric]
    by (simp add: Let_def Inr assms(2) segmentOutcome_def)
  then show ?thesis by blast
qed

lemma dispatchAll_quiet:
  assumes "\<forall>callback. onProgress = Some callback \<longrightarrow>
             (\<forall>progress message s. fst (callback progress message s) = None)"
    and "\<forall>task. cleanup task = None"
  shows "\<exists>w'. dispatchAll onProgress cleanup segmentCount extract batch w
           = Inr (map (\<lambda>task. case extract task of
                                 Inr audioBase64 \<Rightarrow> Waiting audioBase64
                               | Inl err \<Rightarrow> Settled (segmentOutcome task (Inl err))) batch, w')"
proof (induction batch arbitrary: w)
  case Nil
  then show ?case by simp
next
  case (Cons task rest)
  show ?case
  proof (cases "extract task")
    case (Inr audioBase64)
    from Cons [of w] obtain w' where
      "dispatchAll onProgress cleanup segmentCount extract rest w
         = Inr (map (\<lambda>task. case extract task of
                                 Inr audioBase64 \<Rightarrow> Waiting audioBase64
                               | Inl err \<Rightarrow> Settled (segmentOutcome task (Inl err))) rest, w')"
      by blast
    then have "dispatchAll onProgress cleanup segmentCount extract (task # rest) w
         = Inr (map (\<lambda>task. case extract task of
                                 Inr audioBase64 \<Rightarrow> Waiting audioBase64
                               | Inl err \<Rightarrow> Settled (segmentOutcome task (Inl err)))
                  (task # rest), w')"
      by (simp add: Inr)
    then show ?thesis by blast
  next
    case (Inl thrown)
    have cl: "cleanup task = None" using assms(2) by blast
    from processSegment_quiet [where cleanup = cleanup and task = task, OF assms(1) cl,
           of segmentCount "Inl thrown" w] obtain w1 where
      f: "processSegment onProgress cleanup segmentCount task (Inl thrown) w
            = (Inr (segmentOutcome task (Inl thrown)), w1)"
      by blast
    from Cons [of w1] obtain w' where
      "dispatchAll onProgress cleanup segmentCount extract rest w1
         = Inr (map (\<lambda>task. case extract task of
                                 Inr audioBase64 \<Rightarrow> Waiting audioBase64
                               | Inl err \<Rightarrow> Settled (segmentOutcome task (Inl err))) rest, w')"
      by blast
    then have "dispatchAll onProgress cleanup segmentCount extract (task # rest) w
         = Inr (map (\<lambda>task. case extract task of
                                 Inr audioBase64 \<Rightarrow> Waiting audioBase64
                               | Inl err \<Rightarrow> Settled (segmentOutcome task (Inl err)))
                  (task # rest), w')"
      by (simp add: Inl f)
    then show ?thesis by blast
  qed
qed

lemma completeAll_quiet:
  assumes "\<forall>callback. onProgress = Some callback \<longrightarrow>
             (\<forall>progress message s. fst (callback progress message s) = None)"
    and "\<forall>task. cleanup task = None"
    and "length slots = length batch"
    and "\<forall>p<length batch.
           slots ! p = Settled (segmentOutcome (batch ! p) (chunkOutcome extract callASRAPI (batch ! p)))
           \<or> (\<exists>a. extract (batch ! p) = Inr a \<and> slots ! p = Waiting a)"
  shows "\<exists>slots' w'.
           completeAll onProgress cleanup segmentCount callASRAPI batch order slots w
             = Inr (slots', w')
           \<and> length slots' = length batch
           \<and> (\<forall>p<length batch.
                 slots' ! p = Settled (segmentOutcome (batch ! p)
                                         (chunkOutcome extract callASRAPI (batch ! p)))
                 \<or> (\<exists>a. extract (batch ! p) = Inr a \<and> slots' ! p = Waiting a))
           \<and> (\<forall>p<length batch.
                 p \<in> set order
                 \<or> slots ! p = Settled (segmentOutcome (batch ! p)
                                          (chunkOutcome extract callASRAPI (batch ! p)))
                 \<longrightarrow> slots' ! p = Settled (segmentOutcome (batch ! p)
                                             (chunkOutcome extract callASRAPI (batch ! p))))"
  using assms(3,4)
proof (induction order arbitrary: slots w)
  case Nil
  have "completeAll onProgress cleanup segmentCount callASRAPI batch [] slots w = Inr (slots, w)"
    by simp
  then show ?case using Nil by auto
next
  case (Cons pos order)
  let ?final = "\<lambda>p. segmentOutcome (batch ! p) (chunkOutcome extract callASRAPI (batch ! p))"
  note len = Cons.prems(1) and inv = Cons.prems(2)
  show ?case
  proof (cases "pos < length slots")
    case False
    from Cons.IH [OF len inv, of w] obtain slots' w' where
      c: "completeAll onProgress cleanup segmentCount callASRAPI batch order slots w
            = Inr (slots', w')"
      and l: "length slots' = length batch"
      and i: "\<forall>p<length batch. slots' ! p = Settled (?final p)
                 \<or> (\<exists>a. extract (batch ! p) = Inr a \<and> slots' ! p = Waiting a)"
      and f: "\<forall>p<length batch. p \<in> set order \<or> slots ! p = Settled (?final p)
                 \<longrightarrow> slots' ! p = Settled (?final p)"
      by blast
    have c': "completeAll onProgress cleanup segmentCount callASRAPI batch (pos # order) slots w
            = Inr (slots', w')"
      using False c by simp
    have f': "\<forall>p<length batch. p \<in> set (pos # order) \<or> slots ! p = Settled (?final p)
                 \<longrightarrow> slots' ! p = Settled (?final p)"
      using f False len by auto
    show ?thesis using c' l i f' by blast
  next
    case True
    then have pb: "pos < length batch" using len by simp
    show ?thesis
    proof (cases "slots ! pos")
      case (Settled result)
      then have r: "slots ! pos = Settled (?final pos)" using inv pb by auto
      from Cons.IH [OF len inv, of w] obtain slots' w' where
        c: "completeAll onProgress cleanup segmentCount callASRAPI batch order slots w
              = Inr (slots', w')"
        and l: "length slots' = length batch"
        and i: "\<forall>p<length batch. slots' ! p = Settled (?final p)
                   \<or> (\<exists>a. extract (batch ! p) = Inr a \<and> slots' ! p = Waiting a)"
        and f: "\<forall>p<length batch. p \<in> set order \<or> slots ! p = Settled (?final p)
                   \<longrightarrow> slots' ! p = Settled (?final p)"
        by blast
      have c': "completeAll onProgress cleanup segmentCount callASRAPI batch (pos # order) slots w
              = Inr (slots', w')"
        using True Settled c by simp
      have f': "\<forall>p<length batch. p \<in> set (pos # order) \<or> slots ! p = Settled (?final p)
                   \<longrightarrow> slots' ! p = Settled (?final p)"
        using f r by auto
      show ?thesis using c' l i f' by blast
    next
      case (Waiting a)
      then have ex: "extract (batch ! pos) = Inr a" using inv pb by auto
      then have co: "chunkOutcome extract callASRAPI (batch ! pos) = callASRAPI a"
        by (simp add: chunkOutcome_def)
      have cl: "cleanup (batch ! pos) = None" using assms(2) by blast
      from processSegment_quiet [where cleanup = cleanup and task = "batch ! pos",
             OF assms(1) cl, of segmentCount "callASRAPI a" w]
      obtain w1 where
        fs: "processSegment onProgress cleanup segmentCount (batch ! pos) (callASRAPI a) w
               = (Inr (?final pos), w1)"
        unfolding co by blast
      let ?slots2 = "slots[pos := Settled (?final pos)]"
      have len2: "length ?slots2 = length batch" using len by simp
      have inv2: "\<forall>p<length batch. ?slots2 ! p = Settled (?final p)
                   \<or> (\<exists>a. extract (batch ! p) = Inr a \<and> ?slots2 ! p = Waiting a)"
      proof (intro allI impI)
        fix p assume p: "p < length batch"
        show "?slots2 ! p = Settled (?final p)
                \<or> (\<exists>a. extract (batch ! p) = Inr a \<and> ?slots2 ! p = Waiting a)"
        proof (cases "p = pos")
          case True
          then show ?thesis using len p by simp
        next
          case False
          then have "?slots2 ! p = slots ! p" by simp
          then show ?thesis using inv p by simp
        qed
      qed
      from Cons.IH [OF len2 inv2, of w1] obtain slots' w' where
        c: "completeAll onProgress cleanup segmentCount callASRAPI batch order ?slots2 w1
              = Inr (slots', w')"
        and l: "length slots' = length batch"
        and i: "\<forall>p<length batch. slots' ! p = Settled (?final p)
                   \<or> (\<exists>a. extract (batch ! p) = Inr a \<and> slots' ! p = Waiting a)"
        and f: "\<forall>p<length batch. p \<in> set order \<or> ?slots2 ! p = Settled (?final p)
                   \<longrightarrow> slots' ! p = Settled (?final p)"
        by blast
      have c': "completeAll onProgress cleanup segmentCount callASRAPI batch (pos # order) slots w
              = Inr (slots', w')"
        using True Waiting fs c by simp
      have f': "\<forall>p<length batch. p \<in> set (pos # order) \<or> slots ! p = Settled (?final p)
                   \<longrightarrow> slots' ! p = Settled (?final p)"
      proof (intro allI impI)
        fix p assume p: "p < length batch"
          and h: "p \<in> set (pos # order) \<or> slots ! p = Settled (?final p)"
        show "slots' ! p = Settled (?final p)"
        proof (cases "p = pos")
          case True
          then have "?slots2 ! p = Settled (?final p)" using len p by simp
          then show ?thesis using f p by blast
        next
          case False
          then have "?slots2 ! p = slots ! p" by simp
          then show ?thesis using f p h False by auto
        qed
      qed
      show ?thesis using c' l i f' by blast
    qed
  qed
qed

lemma settledResults_all:
  "settledResults (map (\<lambda>task. Settled (final task)) batch) = Some (map final batch)"
  by (simp add: settledResults_def list_all_iff comp_def)

lemma promiseAll_quiet:
  assumes "\<forall>callback. onProgress = Some callback \<longrightarrow>
             (\<forall>progress message s. fst (callback progress message s) = None)"
    and "\<forall>task. cleanup task = None"
    and "\<forall>pos<length batch. pos \<in> set completionOrder"
  shows "\<exists>w'. promiseAll onProgress cleanup segmentCount extract callASRAPI completionOrder batch w
           = Resolved (map (\<lambda>task. segmentOutcome task (chunkOutcome extract callASRAPI task))
                         batch, w')"
proof -
  let ?final = "\<lambda>task. segmentOutcome task (chunkOutcome extract callASRAPI task)"
  let ?slots = "map (\<lambda>task. case extract task of
                                 Inr audioBase64 \<Rightarrow> Waiting audioBase64
                               | Inl err \<Rightarrow> Settled (segmentOutcome task (Inl err))) batch"
  from dispatchAll_quiet [OF assms(1) assms(2), of segmentCount "extract" batch w] obtain w1 where
    d: "dispatchAll onProgress cleanup segmentCount extract batch w = Inr (?slots, w1)"
    by blast
  have len: "length ?slots = length batch" by simp
  have inv: "\<forall>p<length batch. ?slots ! p = Settled (?final (batch ! p))
               \<or> (\<exists>a. extract (batch ! p) = Inr a \<and> ?slots ! p = Waiting a)"
    by (auto simp: chunkOutcome_def split: sum.splits)
  from completeAll_quiet [OF assms(1) assms(2) len inv]
  obtain slots' w2 where
    c: "completeAll onProgress cleanup segmentCount callASRAPI batch completionOrder ?slots w1
          = Inr (slots', w2)"
    and l: "length slots' = length batch"
    and f: "\<forall>p<length batch. p \<in> set completionOrder \<or> ?slots ! p = Settled (?final (batch ! p))
               \<longrightarrow> slots' ! p = Settled (?final (batch ! p))"
    by blast
  have "slots' = map (\<lambda>task. Settled (?final task)) batch"
  proof (rule nth_equalityI)
    show "length slots' = length (map (\<lambda>task. Settled (?final task)) batch)" using l by simp
  next
    fix p assume "p < length slots'"
    then have p: "p < length batch" using l by simp
    then have "slots' ! p = Settled (?final (batch ! p))" using f assms(3) by blast
    then show "slots' ! p = map (\<lambda>task. Settled (?final task)) batch ! p" using p by simp
  qed
  then have "settledResults slots' = Some (map ?final batch)"
    by (simp only: settledResults_all)
  then have "promiseAll onProgress cleanup segmentCount extract callASRAPI completionOrder batch w
           = Resolved (map ?final batch, w2)"
    by (simp add: promiseAll_def d c)
  then show ?thesis by blast
qed

lemma runBatches_quiet:
  assumes "\<forall>callback. onProgress = Some callback \<longrightarrow>
             (\<forall>progress message s. fst (callback progress message s) = None)"
    and "\<forall>task. cleanup task = None"
    and "\<forall>i. \<forall>pos<CONCURRENT_LIMIT. pos \<in> set (schedule i)"
  shows "\<exists>w'. runBatches onProgress cleanup segmentCount extract callASRAPI schedule tasks i
                 allResults w
           = Resolved (allResults
                       @ map (\<lambda>task. segmentOutcome task (chunkOutcome extract callASRAPI task))
                           (drop i tasks), w')"
  using assms
proof (induction onProgress cleanup segmentCount "extract" callASRAPI schedule tasks i allResults w
        rule: runBatches.induct)
  case (1 onProgress cleanup segmentCount extr callASRAPI schedule tasks i allResults w)
  note q = "1.prems"(1) and cl = "1.prems"(2) and sch = "1.prems"(3)
  let ?final = "\<lambda>task. segmentOutcome task (chunkOutcome extr callASRAPI task)"
  show ?case
  proof (cases "i < length tasks")
    case False
    then have "runBatches onProgress cleanup segmentCount extr callASRAPI schedule tasks i
                 allResults w = Resolved (allResults @ map ?final (drop i tasks), w)"
      by (subst runBatches.simps) simp
    then show ?thesis by blast
  next
    case True
    let ?batch = "take CONCURRENT_LIMIT (drop i tasks)"
    have "\<forall>pos<length ?batch. pos \<in> set (schedule i)"
    proof (intro allI impI)
      fix pos assume "pos < length ?batch"
      then have "pos < CONCURRENT_LIMIT" by simp
      then show "pos \<in> set (schedule i)" using sch by blast
    qed
    from promiseAll_quiet [OF q cl this] obtain w1 where
      pa: "promiseAll onProgress cleanup segmentCount extr callASRAPI (schedule i) ?batch w
             = Resolved (map ?final ?batch, w1)"
      by blast
    from "1.IH" [OF True pa refl q cl sch] obtain w' where
      ih: "runBatches onProgress cleanup segmentCount extr callASRAPI schedule tasks
             (i + CONCURRENT_LIMIT) (allResults @ map ?final ?batch) w1
           = Resolved ((allResults @ map ?final ?batch)
                       @ map ?final (drop (i + CONCURRENT_LIMIT) tasks), w')"
      by blast
    have "map ?final ?batch @ map ?final (drop (i + CONCURRENT_LIMIT) tasks)
          = map ?final (drop i tasks)"
      by (simp add: map_append [symmetric] add.commute [of i] drop_drop [symmetric]
               del: map_append drop_drop)
    then have "runBatches onProgress cleanup segmentCount extr callASRAPI schedule tasks i
                 allResults w = Resolved (allResults @ map ?final (drop i tasks), w')"
      using True pa ih by (subst runBatches.simps) simp
    then show ?thesis by blast
  qed
qed

lemma join_line_feed:
  "join sep texts = (case texts of [] \<Rightarrow> [] | first # rest \<Rightarrow> first @ concat (map (\<lambda>chunk. sep @ chunk) rest))"
  by (induction sep texts rule: join.induct) simp_all

lemma index_segmentTasks:
  "map index (segmentTasks startTime endTime) = [0..<nat \<lceil>(endTime - startTime) / 60\<rceil>]"
  by (simp add: segmentTasks_def Let_def comp_def map_idI)

lemma resultText_segmentOutcome:
  "resultText (segmentOutcome task (chunkOutcome extract callASRAPI task)) =
     (case extract task of
        Inl thrown \<Rightarrow> [0x5B, 0x7247, 0x6BB5, 0x20] @ decimal (index task + 1)
                        @ [0x20, 0x8BC6, 0x522B, 0x5931, 0x8D25, 0x5D]
      | Inr audioBase64 \<Rightarrow>
          (case callASRAPI audioBase64 of
             Inr recognised \<Rightarrow> recognised
           | Inl err \<Rightarrow> [0x5B, 0x7247, 0x6BB5, 0x20] @ decimal (index task + 1)
                          @ [0x20, 0x8BC6, 0x522B, 0x5931, 0x8D25, 0x5D]))"
  by (simp add: segmentOutcome_def chunkOutcome_def failedText_def split: sum.splits)

lemma resultIndex_segmentOutcome: "resultIndex (segmentOutcome task outcome) = index task"
  by (simp add: segmentOutcome_def split: sum.splits)

text \<open>
  C5 (amended): when \<open>ffmpeg\<close> is available, the temporary directory exists or can be
  created, the progress callback (which may be absent) does not throw, removing the
  chunks' temporary files does not throw and every request of every batch completes, in
  whatever order, \<open>transcribeAudio\<close> resolves with the texts of the chunks in index order,
  each text after the first preceded by a line feed; there are \<open>ceil(duration / 60)\<close>
  chunks, indexed from 0; the text of a chunk is what the recognition returned, or, when
  cutting the chunk out, reading it or the recognition request threw, the placeholder
  \<open>[\<dots> N \<dots>]\<close> with \<open>N\<close> the chunk's index plus one, and the transcription still
  resolves. Chunks are dispatched in batches of \<open>CONCURRENT_LIMIT\<close>.
\<close>

theorem C5_transcript_order:
  assumes "checkFFmpeg"
    and "ensureTempDir = None"
    and "\<forall>callback. onProgress = Some callback \<longrightarrow>
           (\<forall>progress message s. fst (callback progress message s) = None)"
    and "\<forall>task. cleanup task = None"
    and "\<forall>i. \<forall>pos<CONCURRENT_LIMIT. pos \<in> set (schedule i)"
  shows "transcribeAudio checkFFmpeg ensureTempDir extract callASRAPI cleanup schedule
           startTime endTime onProgress s
         = Resolved
             (case map (\<lambda>task.
                     case extract task of
                       Inl thrown \<Rightarrow> [0x5B, 0x7247, 0x6BB5, 0x20] @ decimal (index task + 1)
                                       @ [0x20, 0x8BC6, 0x522B, 0x5931, 0x8D25, 0x5D]
                     | Inr audioBase64 \<Rightarrow>
                         (case callASRAPI audioBase64 of
                            Inr recognised \<Rightarrow> recognised
                          | Inl err \<Rightarrow> [0x5B, 0x7247, 0x6BB5, 0x20] @ decimal (index task + 1)
                                         @ [0x20, 0x8BC6, 0x522B, 0x5931, 0x8D25, 0x5D]))
                   (segmentTasks startTime endTime) of
                [] \<Rightarrow> []
              | first # rest \<Rightarrow> first @ concat (map (\<lambda>chunk. [0x0A] @ chunk) rest))
       \<and> map index (segmentTasks startTime endTime)
           = [0..<nat \<lceil>(endTime - startTime) / 60\<rceil>]"
proof -
  let ?tasks = "segmentTasks startTime endTime"
  let ?final = "\<lambda>task. segmentOutcome task (chunkOutcome extract callASRAPI task)"
  let ?all = "map ?final ?tasks"
  from runBatches_quiet [OF assms(3) assms(4) assms(5)] obtain w where
    rb: "runBatches onProgress cleanup \<lceil>(endTime - startTime) / 60\<rceil> extract callASRAPI schedule
           ?tasks 0 [] (0, s) = Resolved ([] @ map ?final (drop 0 ?tasks), w)"
    by blast
  have "map resultIndex ?all = map index ?tasks"
    by (simp add: comp_def resultIndex_segmentOutcome)
  then have "sorted (map resultIndex ?all)"
    by (simp only: index_segmentTasks sorted_upt)
  then have so: "sort_key resultIndex ?all = ?all" by (rule sort_key_id_if_sorted)
  from callProgress_quiet [OF assms(3)] obtain s1 where
    fin: "callProgress onProgress 100 transcriptionDone (snd w) = (None, s1)" by blast
  have tr: "transcribeAudio checkFFmpeg ensureTempDir extract callASRAPI cleanup schedule
           startTime endTime onProgress s
         = Resolved (join [0x0A] (map resultText ?all))"
    using assms(1) assms(2) rb fin by (simp add: transcribeAudio_def Let_def so)
  have tx: "map resultText ?all
        = map (\<lambda>task.
                     case extract task of
                       Inl thrown \<Rightarrow> [0x5B, 0x7247, 0x6BB5, 0x20] @ decimal (index task + 1)
                                       @ [0x20, 0x8BC6, 0x522B, 0x5931, 0x8D25, 0x5D]
                     | Inr audioBase64 \<Rightarrow>
                         (case callASRAPI audioBase64 of
                            Inr recognised \<Rightarrow> recognised
                          | Inl err \<Rightarrow> [0x5B, 0x7247, 0x6BB5, 0x20] @ decimal (index task + 1)
                                         @ [0x20, 0x8BC6, 0x522B, 0x5931, 0x8D25, 0x5D])) ?tasks"
    by (simp only: map_map comp_def resultText_segmentOutcome)
  show ?thesis
    unfolding tr tx join_line_feed [of "[0x0A]"] using index_segmentTasks by blast
qed

text \<open>
  C5 (as stated) fails when the progress callback throws, a temporary file cannot be
  removed, \<open>ffmpeg\<close> is missing or the temporary directory cannot be created. In a 50
  second window, one chunk, whose recognition request fails: an \<open>onProgress\<close> that throws
  makes the call in the \<open>catch\<close> block throw, the chunk's promise rejects and the
  transcription rejects instead of returning the placeholder; with no progress callback,
  a throw of \<open>unlinkSync\<close> in the \<open>finally\<close> block rejects it in the same way. Without
  \<open>ffmpeg\<close>, or when \<open>mkdirSync\<close> throws \<open>EACCES\<close>, the transcription rejects before
  any chunk is processed.
\<close>

theorem C5_callback_or_cleanup_aborts:
  "map index (segmentTasks 0 50) = [0]
   \<and> transcribeAudio True None extractIndex noRecognition filesRemoved lastFirst 0 50
       (Some throwingProgress) []
     = Rejected (Error [0x62, 0x6F, 0x6F, 0x6D])
   \<and> transcribeAudio True None extractIndex noRecognition filesBusy lastFirst 0 50
       (None :: (int \<Rightarrow> jsstring \<Rightarrow> int list effect) option) []
     = Rejected (Error [0x62, 0x75, 0x73, 0x79])
   \<and> transcribeAudio False None extractIndex chunk1_fails filesRemoved lastFirst 0 50
       (None :: (int \<Rightarrow> jsstring \<Rightarrow> int list effect) option) []
     = Rejected (Error [0x66, 0x66, 0x6D, 0x70, 0x65, 0x67, 0x20, 0x672A, 0x5B89, 0x88C5,
                        0xFF0C, 0x8BF7, 0x5148, 0x5B89, 0x88C5, 0x20,
                        0x66, 0x66, 0x6D, 0x70, 0x65, 0x67])
   \<and> transcribeAudio True (Some (Error [0x45, 0x41, 0x43, 0x43, 0x45, 0x53])) extractIndex
       chunk1_fails filesRemoved lastFirst 0 50
       (None :: (int \<Rightarrow> jsstring \<Rightarrow> int list effect) option) []
     = Rejected (Error [0x45, 0x41, 0x43, 0x43, 0x45, 0x53])"
  by code_simp

text \<open>
  C5 (amended) at a 130 second window (three chunks), the chunk with index 1 failing and
  the requests of the batch completing in reverse order: \<open>A\<close>, the placeholder with the
  number 2, \<open>C\<close>, separated by line feeds.
\<close>

theorem C5_transcript_order_witness:
  "transcribeAudio True None extractIndex chunk1_fails filesRemoved lastFirst 0 130
     (Some recordProgress) []
   = Resolved [0x41, 0x0A, 0x5B, 0x7247, 0x6BB5, 0x20, 0x32, 0x20, 0x8BC6, 0x522B, 0x5931,
               0x8D25, 0x5D, 0x0A, 0x43]
   \<and> map index (segmentTasks 0 130) = [0, 1, 2]"
proof -
  have q: "\<forall>callback. Some recordProgress = Some callback \<longrightarrow>
             (\<forall>progress message s. fst (callback progress message s) = None)"
    by (simp add: recordProgress_def)
  have c: "\<forall>task. filesRemoved task = None" by (simp add: filesRemoved_def)
  have s: "\<forall>i. \<forall>pos<CONCURRENT_LIMIT. pos \<in> set (lastFirst i)"
    by (auto simp: CONCURRENT_LIMIT_def lastFirst_def less_Suc_eq numeral_3_eq_3)
  have t: "segmentTasks 0 130 =
            [\<lparr>index = 0, segmentStart = 0, segmentLength = 60\<rparr>,
             \<lparr>index = 1, segmentStart = 60, segmentLength = 60\<rparr>,
             \<lparr>index = 2, segmentStart = 120, segmentLength = 10\<rparr>]"
    by code_simp
  have d: "decimal (Suc (Suc 0)) = [0x32]" by code_simp
  note th = C5_transcript_order [of True None "Some recordProgress" filesRemoved lastFirst
      extractIndex chunk1_fails 0 130 "[]", OF TrueI refl q c s]
  from th have "transcribeAudio True None extractIndex chunk1_fails filesRemoved lastFirst 0 130
     (Some recordProgress) []
   = Resolved [0x41, 0x0A, 0x5B, 0x7247, 0x6BB5, 0x20, 0x32, 0x20, 0x8BC6, 0x522B, 0x5931,
               0x8D25, 0x5D, 0x0A, 0x43]"
    unfolding t by (simp add: extractIndex_def chunk1_fails_def d)
  moreover have "map index (segmentTasks 0 130) = [0, 1, 2]" unfolding t by simp
  ultimately show ?thesis by blast
qed
subsection \<open>Script generator\<close>

lemma includes_styleTag: "js_includes (styleTag @ p) styleName"
  by (simp add: styleTag_def styleName_def)

lemma includes_default: "js_includes defaultImagePrompt styleName"
  by (simp add: defaultImagePrompt_def styleName_def)

lemma defaultImagePrompt_nonempty: "defaultImagePrompt \<noteq> []"
  by (simp add: defaultImagePrompt_def)

lemma styleTag_nonempty: "styleTag \<noteq> []"
  by (simp add: styleTag_def)

lemma styleTag_append_nonempty: "styleTag @ p \<noteq> []"
  by (simp add: styleTag_nonempty)

lemma normalizeImagePrompt_nonempty: "normalizeImagePrompt toLowerCase p \<noteq> []"
  by (simp add: normalizeImagePrompt_def defaultImagePrompt_nonempty styleTag_nonempty)

text \<open>
  C9: for every string and whatever \<open>toLowerCase\<close> does, normalising an image prompt
  twice gives the same string as normalising it once, and the normalised prompt names the
  style: it includes the style name, or its lowercase form includes \<open>zootopia\<close>.
\<close>

theorem C9_normalizeImagePrompt_idempotent:
  "normalizeImagePrompt toLowerCase (normalizeImagePrompt toLowerCase prompt)
     = normalizeImagePrompt toLowerCase prompt
   \<and> (js_includes (normalizeImagePrompt toLowerCase prompt) styleName
        \<or> js_includes (toLowerCase (normalizeImagePrompt toLowerCase prompt)) zootopia)"
proof (cases "prompt = []")
  case True
  then have n: "normalizeImagePrompt toLowerCase prompt = defaultImagePrompt"
    by (simp add: normalizeImagePrompt_def)
  have "normalizeImagePrompt toLowerCase defaultImagePrompt = defaultImagePrompt"
    by (simp add: normalizeImagePrompt_def includes_default defaultImagePrompt_nonempty)
  then show ?thesis unfolding n using includes_default by simp
next
  case ne: False
  show ?thesis
  proof (cases "\<not> js_includes prompt styleName \<and> \<not> js_includes (toLowerCase prompt) zootopia")
    case True
    then have n: "normalizeImagePrompt toLowerCase prompt = styleTag @ prompt"
      using ne by (simp add: normalizeImagePrompt_def)
    have "normalizeImagePrompt toLowerCase (styleTag @ prompt) = styleTag @ prompt"
      by (simp add: normalizeImagePrompt_def includes_styleTag styleTag_nonempty)
    then show ?thesis unfolding n using includes_styleTag by simp
  next
    case False
    then have n: "normalizeImagePrompt toLowerCase prompt = prompt"
      using ne by (auto simp: normalizeImagePrompt_def)
    show ?thesis unfolding n using False n by auto
  qed
qed

text \<open>
  C9 at the prompt \<open>cat\<close>: the style tag is put in front once.
\<close>

theorem C9_normalizeImagePrompt_idempotent_witness:
  "normalizeImagePrompt asciiLowerCase [0x63, 0x61, 0x74] = styleTag @ [0x63, 0x61, 0x74]
   \<and> normalizeImagePrompt asciiLowerCase (normalizeImagePrompt asciiLowerCase [0x63, 0x61, 0x74])
       = styleTag @ [0x63, 0x61, 0x74]"
proof -
  have n: "normalizeImagePrompt asciiLowerCase [0x63, 0x61, 0x74] = styleTag @ [0x63, 0x61, 0x74]"
    by (simp add: normalizeImagePrompt_def asciiLowerCase_def styleName_def zootopia_def)
  from C9_normalizeImagePrompt_idempotent [of asciiLowerCase "[0x63, 0x61, 0x74]"]
  show ?thesis unfolding n by simp
qed

lemma normalizeImagePromptValue_truthy:
  "normalizeImagePromptValue toLowerCase v = Inr p \<Longrightarrow> truthy p"
  by (cases v)
     (auto simp: normalizeImagePrompt_nonempty defaultImagePrompt_nonempty split: if_splits)

lemma orDefault_truthy: "truthy d \<Longrightarrow> truthy (orDefault a d)"
  by (simp add: orDefault_def split: option.splits)

lemma normalizeSlide_truthy:
  assumes "normalizeSlide toLowerCase slide i = Inr s"
  shows "truthy (pptTitle s) \<and> truthy (pptImagePrompt s)"
proof -
  from assms obtain title imagePrompt where
    ip: "normalizeImagePromptValue toLowerCase
           (orDefault
              (orElse (propertyOf slide [0x69, 0x6D, 0x61, 0x67, 0x65, 0x50, 0x72, 0x6F, 0x6D,
                                         0x70, 0x74])
                      (propertyOf slide [0x69, 0x6D, 0x61, 0x67, 0x65, 0x5F, 0x70, 0x72, 0x6F,
                                         0x6D, 0x70, 0x74]))
              (JString [])) = Inr imagePrompt"
    and t: "pptTitle s = orDefault title (JString ([0x7B2C] @ decimal (i + 1) @ [0x9875]))"
    and p: "pptImagePrompt s = imagePrompt"
    by (auto simp: normalizeSlide_def split: sum.splits)
  have "truthy (pptTitle s)" unfolding t by (rule orDefault_truthy) simp
  moreover have "truthy (pptImagePrompt s)"
    unfolding p by (rule normalizeImagePromptValue_truthy [OF ip])
  ultimately show ?thesis by simp
qed

lemma normalizeSlides_truthy:
  "normalizeSlides toLowerCase i slides = Inr ss \<Longrightarrow>
   length ss = length slides
   \<and> (\<forall>s\<in>set ss. truthy (pptTitle s) \<and> truthy (pptImagePrompt s))"
proof (induction slides arbitrary: i ss)
  case Nil
  then show ?case by simp
next
  case (Cons slide rest)
  from Cons.prems obtain s ss' where
    s: "normalizeSlide toLowerCase slide i = Inr s"
    and r: "normalizeSlides toLowerCase (i + 1) rest = Inr ss'"
    and ss: "ss = s # ss'"
    by (auto split: sum.splits)
  show ?case using Cons.IH [OF r] normalizeSlide_truthy [OF s] ss by simp
qed

lemma generateDefaultScript_length: "length (generateDefaultScript knowledgePoint summary) = 5"
  by (simp add: generateDefaultScript_def)

lemma generateDefaultScript_prompts:
  "\<forall>s\<in>set (generateDefaultScript knowledgePoint summary). truthy (pptImagePrompt s)"
  by (simp add: generateDefaultScript_def)

lemma generateDefaultScript_titles:
  "knowledgePoint \<noteq> [] \<Longrightarrow>
   \<forall>s\<in>set (generateDefaultScript knowledgePoint summary). truthy (pptTitle s)"
  by (simp add: generateDefaultScript_def)


lemma slidesOfResponse_Inr:
  assumes "slidesOfResponse parse toLowerCase response = Inr slides"
  shows "(\<forall>s\<in>set slides. truthy (pptTitle s) \<and> truthy (pptImagePrompt s))
       \<and> (\<exists>result parsedSlides.
             parseResponse parse response = Some result
             \<and> propertyOf result slidesKey = Some (JArray parsedSlides)
             \<and> length slides = length parsedSlides)"
proof -
  from assms obtain result where r: "parseResponse parse response = Some result"
    by (auto simp: slidesOfResponse_def split: option.splits)
  from assms r obtain parsedSlides where
    p: "getProp result slidesKey = Inr (Some (JArray parsedSlides))"
    and n: "normalizeSlides toLowerCase 0 parsedSlides = Inr slides"
    by (auto simp: slidesOfResponse_def split: if_splits sum.splits option.splits json.splits)
  have "propertyOf result slidesKey = Some (JArray parsedSlides)"
    using p by (simp add: getProp_def split: if_splits)
  then show ?thesis using normalizeSlides_truthy [OF n] r by auto
qed

text \<open>
  What \<open>generatePPTScript\<close> guarantees when building the prompt does not throw (the
  \<open>keyPoints\<close> argument is left out or is an array, for instance), for every outcome of
  the request (a response text or a thrown error), whatever \<open>JSON.parse\<close> and
  \<open>toLowerCase\<close> do: it returns a script and does not throw; every returned slide has a
  truthy image prompt, and a truthy title provided \<open>knowledgePoint\<close> is non-empty; the
  script is either the default script of 5 slides, or one normalised slide per element of
  the \<open>slides\<close> array that a parse attempt produced, as many slides as that array has.
  With \<open>null\<close> for \<open>keyPoints\<close> the promise rejects.
\<close>

lemma userPromptThrows_cases:
  "userPromptThrows greaterThanZero None = None"
  "userPromptThrows greaterThanZero (Some (JArray points)) = None"
  "userPromptThrows greaterThanZero (Some JNull) = Some typeError"
  by (simp_all add: userPromptThrows_def)

lemma generatePPTScript_returns:
  assumes "userPromptThrows greaterThanZero keyPoints = None"
  shows "\<exists>slides.
      generatePPTScript parse toLowerCase greaterThanZero callLLM knowledgePoint summary keyPoints
        = Inr slides
      \<and> (\<forall>s\<in>set slides. truthy (pptImagePrompt s))
      \<and> (knowledgePoint \<noteq> [] \<longrightarrow> (\<forall>s\<in>set slides. truthy (pptTitle s)))
      \<and> ((slides = generateDefaultScript knowledgePoint summary \<and> length slides = 5)
          \<or> (\<exists>response result parsedSlides.
                callLLM = Inr response
                \<and> parseResponse parse response = Some result
                \<and> propertyOf result slidesKey = Some (JArray parsedSlides)
                \<and> length slides = length parsedSlides))"
proof -
  let ?default = "generateDefaultScript knowledgePoint summary"
  let ?run = "generatePPTScript parse toLowerCase greaterThanZero callLLM knowledgePoint summary
                keyPoints"
  have dflt: "(\<forall>s\<in>set ?default. truthy (pptImagePrompt s))
      \<and> (knowledgePoint \<noteq> [] \<longrightarrow> (\<forall>s\<in>set ?default. truthy (pptTitle s)))
      \<and> length ?default = 5"
    using generateDefaultScript_prompts generateDefaultScript_titles generateDefaultScript_length
    by blast
  show ?thesis
  proof (cases callLLM)
    case (Inl err)
    then have "?run = Inr ?default"
      by (simp add: generatePPTScript_def assms)
    then show ?thesis using dflt by blast
  next
    case (Inr response)
    show ?thesis
    proof (cases "slidesOfResponse parse toLowerCase response")
      case (Inl err)
      then have "?run = Inr ?default"
        using Inr by (simp add: generatePPTScript_def assms)
      then show ?thesis using dflt by blast
    next
      case sl: (Inr slides)
      then have g: "?run = Inr slides"
        using Inr by (simp add: generatePPTScript_def assms)
      from slidesOfResponse_Inr [OF sl] Inr g show ?thesis by blast
    qed
  qed
qed

lemma generatePPTScript_null_keyPoints:
  "generatePPTScript parse toLowerCase greaterThanZero callLLM knowledgePoint summary (Some JNull)
     = Inl typeError"
  by (simp add: generatePPTScript_def userPromptThrows_def)

text \<open>
  C4: the script generator is to return at least one slide for every response, an empty
  \<open>slides\<close> array included. At the response \<open>{"slides": []}\<close> (with \<open>keyPoints\<close> left
  out) it does not: the first
  parse attempt succeeds, the empty array passes the validation (an empty array is
  truthy and no length is checked), and the script returned has no slide. A response that
  cannot be parsed, such as the empty string, does get the default script of 5 slides.
\<close>

theorem C4_empty_slides_array:
  "generatePPTScript JSON_parse asciiLowerCase (\<lambda>v. False) (Inr response_emptySlides)
      knowledgePoint_K [] None = Inr []
   \<and> length (projr (generatePPTScript JSON_parse asciiLowerCase (\<lambda>v. False) (Inr [])
                      knowledgePoint_K [] None)) = 5"
  by code_simp

text \<open>
  The response \<open>{"slides": [{"title": "T"}]}\<close>: one slide, with the default image
  prompt.
\<close>

lemma generatePPTScript_one_slide:
  "\<exists>slides.
      generatePPTScript JSON_parse asciiLowerCase (\<lambda>v. False) (Inr response_oneSlide)
        knowledgePoint_K [] None = Inr slides
      \<and> list_all (\<lambda>s. truthy (pptImagePrompt s) \<and> truthy (pptTitle s)) slides
      \<and> (length slides = 5 \<or> length slides = 1)"
proof -
  have k: "knowledgePoint_K \<noteq> []" by (simp add: knowledgePoint_K_def)
  have pr: "parseResponse JSON_parse response_oneSlide =
        Some (JObject [(slidesKey, JArray [JObject [([0x74, 0x69, 0x74, 0x6C, 0x65], JString [0x54])]])])"
    by code_simp
  have kp: "userPromptThrows (\<lambda>v. False) None = None" by (simp add: userPromptThrows_def)
  from generatePPTScript_returns [OF kp, of JSON_parse asciiLowerCase "Inr response_oneSlide"
         knowledgePoint_K "[]"]
  obtain slides where
    g: "generatePPTScript JSON_parse asciiLowerCase (\<lambda>v. False) (Inr response_oneSlide)
          knowledgePoint_K [] None = Inr slides"
    and a: "\<forall>s\<in>set slides. truthy (pptImagePrompt s)"
    and b: "knowledgePoint_K \<noteq> [] \<longrightarrow> (\<forall>s\<in>set slides. truthy (pptTitle s))"
    and c: "(slides = generateDefaultScript knowledgePoint_K [] \<and> length slides = 5)
          \<or> (\<exists>response result parsedSlides.
                (Inr response_oneSlide :: error + jsstring) = Inr response
                \<and> parseResponse JSON_parse response = Some result
                \<and> propertyOf result slidesKey = Some (JArray parsedSlides)
                \<and> length slides = length parsedSlides)"
    by blast
  have "length slides = 5 \<or> length slides = 1"
    using c pr by auto
  then show ?thesis using g a b k by (auto simp: list_all_iff)
qed

subsection \<open>Text-to-speech: segments of a long text\<close>


lemma unitBytes_surrogate: "isHighSurrogate c \<or> isLowSurrogate c \<Longrightarrow> unitBytes c = 3"
  by (auto simp: unitBytes_def isHighSurrogate_def isLowSurrogate_def
      word_le_nat_alt word_less_nat_alt)

lemma not_both_surrogates: "isLowSurrogate c \<Longrightarrow> \<not> isHighSurrogate c"
  by (auto simp: isHighSurrogate_def isLowSurrogate_def word_le_nat_alt)


lemma utf8Length_Cons_low:
  "isLowSurrogate d \<Longrightarrow> utf8Length (d # ds) = 3 + utf8Length ds"
  by (cases ds) (simp_all add: unitBytes_surrogate not_both_surrogates)

lemma utf8Length_Cons_le: "utf8Length (c # b) \<le> unitBytes c + utf8Length b"
proof (cases b)
  case Nil
  then show ?thesis by simp
next
  case (Cons d ds)
  show ?thesis
  proof (cases "isHighSurrogate c \<and> isLowSurrogate d")
    case True
    then show ?thesis
      using Cons unitBytes_surrogate [of c] utf8Length_Cons_low [of d ds] by simp
  next
    case False
    then show ?thesis using Cons by auto
  qed
qed

lemma utf8Length_append_le: "utf8Length (a @ b) \<le> utf8Length a + utf8Length b"
proof (induction a rule: utf8Length.induct)
  case 1
  then show ?case by simp
next
  case (2 c)
  then show ?case using utf8Length_Cons_le [of c b] by simp
next
  case (3 c d cs)
  then show ?case by (auto split: if_splits)
qed

lemma utf8Length_concat_le: "utf8Length (concat xs) \<le> sum_list (map utf8Length xs)"
proof (induction xs)
  case Nil
  then show ?case by simp
next
  case (Cons x xs)
  then show ?case using utf8Length_append_le [of x "concat xs"] by simp
qed






































end
